theory Spec2Isabelle
  imports Complex_Main "HOL-Library.List_Lexorder" "HOL-Library.Char_ord" "HOL-Library.Multiset"
begin

section \<open>Floating-point cells\<close>

text \<open>
  \<^verbatim>\<open>_guard_ratio\<close> of \<^verbatim>\<open>preprocessing.py\<close> names \<^verbatim>\<open>np.inf\<close>, \<^verbatim>\<open>-np.inf\<close>, \<^verbatim>\<open>np.nan\<close> and
  \<^verbatim>\<open>0\<close> explicitly, so its cells are float64 values: not-a-number (pandas' missing value of a
  numeric column), the two infinities, or a finite number. A finite float64 is a rational
  number; zero is unsigned here.
\<close>

datatype fval = NaN | PInf | NInf | Fin rat

text \<open>
  The result of a float64 operation is the exact result rounded to the nearest float64, ties
  to the even significand (IEEE 754 binary64, the default rounding mode). A float64 has a
  significand of 53 bits; its exponent is at least \<open>-1022\<close>, below which the spacing stays
  \<open>2^-1074\<close> (subnormal numbers, and 0.0 on underflow); a rounded magnitude of \<open>2^1024\<close> is an
  infinity.

  \<open>bitlen n\<close> is the number of binary digits of a positive integer, \<open>exponent q\<close> the \<open>e\<close>
  with \<open>2^e \<le> |q| < 2^(e+1)\<close>.
\<close>

function bitlen :: "int \<Rightarrow> int" where
  "bitlen n = (if n \<le> 0 then 0 else 1 + bitlen (n div 2))"
  by pat_completeness auto

termination bitlen
  by (relation "measure nat") auto

definition exponent :: "rat \<Rightarrow> int" where
  "exponent q =
     (case quotient_of \<bar>q\<bar> of
        (p, d) \<Rightarrow> let e = bitlen p - bitlen d in if 2 powi e \<le> \<bar>q\<bar> then e else e - 1)"

definition round_half_even :: "rat \<Rightarrow> int" where
  "round_half_even x =
     (let m = \<lfloor>x\<rfloor>; r = x - of_int m
      in if r < 1 / 2 then m else if 1 / 2 < r then m + 1 else if even m then m else m + 1)"

definition float64_of :: "rat \<Rightarrow> fval" where
  "float64_of q =
     (let ulp = 2 powi (max (exponent q) (- 1022) - 52);
          v = of_int (round_half_even (q / ulp)) * ulp
      in if 2 ^ 1024 \<le> v then PInf else if v \<le> - (2 ^ 1024) then NInf else Fin v)"

text \<open>float64 true division, the element operation of \<^verbatim>\<open>numer / denom\<close>.\<close>

fun fdiv :: "fval \<Rightarrow> fval \<Rightarrow> fval" where
  "fdiv NaN _ = NaN"
| "fdiv _ NaN = NaN"
| "fdiv (Fin a) (Fin b) =
     (if b = 0 then (if a = 0 then NaN else if 0 < a then PInf else NInf)
      else float64_of (a / b))"
| "fdiv (Fin a) _ = Fin 0"
| "fdiv PInf (Fin b) = (if 0 \<le> b then PInf else NInf)"
| "fdiv NInf (Fin b) = (if 0 \<le> b then NInf else PInf)"
| "fdiv _ _ = NaN"

text \<open>float64 negation, addition, subtraction and multiplication.\<close>

fun fneg :: "fval \<Rightarrow> fval" where
  "fneg NaN = NaN"
| "fneg PInf = NInf"
| "fneg NInf = PInf"
| "fneg (Fin a) = Fin (- a)"

fun fadd :: "fval \<Rightarrow> fval \<Rightarrow> fval" where
  "fadd NaN _ = NaN"
| "fadd _ NaN = NaN"
| "fadd (Fin a) (Fin b) = float64_of (a + b)"
| "fadd PInf NInf = NaN"
| "fadd NInf PInf = NaN"
| "fadd PInf _ = PInf"
| "fadd NInf _ = NInf"
| "fadd _ PInf = PInf"
| "fadd _ NInf = NInf"

definition fsub :: "fval \<Rightarrow> fval \<Rightarrow> fval" where
  "fsub x y = fadd x (fneg y)"

fun fmul :: "fval \<Rightarrow> fval \<Rightarrow> fval" where
  "fmul NaN _ = NaN"
| "fmul _ NaN = NaN"
| "fmul (Fin a) (Fin b) = float64_of (a * b)"
| "fmul (Fin a) PInf = (if a = 0 then NaN else if 0 < a then PInf else NInf)"
| "fmul (Fin a) NInf = (if a = 0 then NaN else if 0 < a then NInf else PInf)"
| "fmul PInf (Fin b) = (if b = 0 then NaN else if 0 < b then PInf else NInf)"
| "fmul NInf (Fin b) = (if b = 0 then NaN else if 0 < b then NInf else PInf)"
| "fmul PInf PInf = PInf"
| "fmul PInf NInf = NInf"
| "fmul NInf PInf = NInf"
| "fmul NInf NInf = PInf"

text \<open>\<^verbatim>\<open>Series.replace(values, np.nan)\<close>: every cell equal to one of the listed values becomes NaN.\<close>

definition replace_nan :: "fval list \<Rightarrow> fval list \<Rightarrow> fval list" where
  "replace_nan vs xs = map (\<lambda>x. if x \<in> set vs then NaN else x) xs"

text \<open>
  \<^verbatim>\<open>numer / denom\<close> on two series aligns them on their index; both come from one dataframe, so
  position \<open>i\<close> meets position \<open>i\<close>. A label that only one side has gives NaN.
\<close>

fun series_div :: "fval list \<Rightarrow> fval list \<Rightarrow> fval list" where
  "series_div [] [] = []"
| "series_div (x # xs) [] = NaN # series_div xs []"
| "series_div [] (y # ys) = NaN # series_div [] ys"
| "series_div (x # xs) (y # ys) = fdiv x y # series_div xs ys"

text \<open>
  \<^verbatim>\<open>
  def _guard_ratio(numer, denom):
      r = numer.replace([np.inf, -np.inf], np.nan) / denom.replace([0, np.inf, -np.inf], np.nan)
      return r.replace([np.inf, -np.inf], np.nan)
  \<close>
\<close>

definition guard_ratio :: "fval list \<Rightarrow> fval list \<Rightarrow> fval list" where
  "guard_ratio numer denom =
     (let r = series_div (replace_nan [PInf, NInf] numer)
                         (replace_nan [Fin 0, PInf, NInf] denom)
      in replace_nan [PInf, NInf] r)"


section \<open>Numeric columns and the winsorizer\<close>

text \<open>
  The exceptions the modelled code can raise. \<open>Rerun\<close> is Streamlit's script-rerun signal.
\<close>

datatype error = ValueError | TypeError | KeyError | Rerun

text \<open>
  A cell of a numeric column of a dataframe is a number or missing (\<open>None\<close> is NaN). Numbers
  are rationals and arithmetic on them is exact: rounding is outside the model.
\<close>

type_synonym num = "rat option"

definition dropna :: "'a option list \<Rightarrow> 'a list" where
  "dropna xs = List.map_filter id xs"

text \<open>
  \<^verbatim>\<open>Series.quantile(q)\<close> with the default linear interpolation, on the sorted non-missing
  values: position \<open>(n - 1) * q\<close>, interpolated between its two neighbours. An empty or
  all-missing series gives NaN.
\<close>

definition lerp :: "rat \<Rightarrow> rat \<Rightarrow> rat \<Rightarrow> rat" where
  "lerp a b t = a + (b - a) * t"

definition percentile :: "rat list \<Rightarrow> rat \<Rightarrow> rat" where
  "percentile vs q =
     (let n = length vs;
          h = of_nat (n - 1) * q;
          j = nat \<lfloor>h\<rfloor>;
          g = h - of_int \<lfloor>h\<rfloor>
      in lerp (vs ! j) (vs ! min (j + 1) (n - 1)) g)"

definition quantile :: "num list \<Rightarrow> rat \<Rightarrow> num" where
  "quantile s q = (let vs = sort (dropna s) in if vs = [] then None else Some (percentile vs q))"

text \<open>
  \<^verbatim>\<open>Series.clip(lower, upper)\<close>: a NaN threshold does not clip, two thresholds given in the
  wrong order are swapped, a missing cell stays missing; otherwise a cell below \<open>lower\<close> becomes
  \<open>lower\<close> and a cell above \<open>upper\<close> becomes \<open>upper\<close>.
\<close>

definition clip_cell :: "num \<Rightarrow> num \<Rightarrow> num \<Rightarrow> num" where
  "clip_cell l u x =
     (case x of None \<Rightarrow> None
      | Some v \<Rightarrow>
          let r = (case l of None \<Rightarrow> v | Some a \<Rightarrow> if a \<le> v then v else a)
          in Some (case u of None \<Rightarrow> r | Some b \<Rightarrow> if v \<le> b then r else b))"

definition clip :: "num \<Rightarrow> num \<Rightarrow> num list \<Rightarrow> num list" where
  "clip lower upper xs =
     (case (lower, upper) of
        (Some a, Some b) \<Rightarrow> map (clip_cell (Some (min a b)) (Some (max a b))) xs
      | _ \<Rightarrow> map (clip_cell lower upper) xs)"

text \<open>
  \<^verbatim>\<open>
  def _winsorize(series, lower=0.01, upper=0.99):
      lo, hi = series.quantile([lower, upper])
      return series.clip(lo, hi), {"low": float(lo), "high": float(hi)}
  \<close>
  \<^verbatim>\<open>quantile\<close> raises ValueError for a fraction outside \<open>[0, 1]\<close>.
\<close>

record winsor_params =
  low :: num
  high :: num

definition winsorize :: "num list \<Rightarrow> rat \<Rightarrow> rat \<Rightarrow> error + (num list \<times> winsor_params)" where
  "winsorize series lower upper =
     (if \<not> (0 \<le> lower \<and> lower \<le> 1 \<and> 0 \<le> upper \<and> upper \<le> 1) then Inl ValueError
      else let lo = quantile series lower; hi = quantile series upper
           in Inr (clip lo hi series, \<lparr>low = lo, high = hi\<rparr>))"

section \<open>The rare-category merger\<close>

text \<open>
  The merger works on a column of pandas' string dtype (its only caller passes
  \<^verbatim>\<open>df[c].astype("string")\<close>): a cell is a string or the missing value \<^verbatim>\<open>pd.NA\<close>, here
  \<open>None\<close>. \<^verbatim>\<open>str(x)\<close> of a cell is the string itself, and \<^verbatim>\<open><NA>\<close> for the missing value.
\<close>

definition py_str :: "string option \<Rightarrow> string" where
  "py_str x = (case x of None \<Rightarrow> ''<NA>'' | Some s \<Rightarrow> s)"

text \<open>The distinct values of a list, in the order of their first appearance.\<close>

definition unique :: "'a list \<Rightarrow> 'a list" where
  "unique xs = rev (remdups (rev xs))"

text \<open>
  \<^verbatim>\<open>Series.value_counts(dropna=False, normalize=True)\<close>: every distinct value, the missing value
  included, with its share of the rows, most frequent first (equal counts in the order of
  first appearance).
\<close>

definition value_counts :: "'a list \<Rightarrow> ('a \<times> rat) list" where
  "value_counts xs =
     map (\<lambda>k. (k, of_nat (count_list xs k) / of_nat (length xs)))
         (sort_key (\<lambda>k. - int (count_list xs k)) (unique xs))"

text \<open>
  A Python \<^verbatim>\<open>dict\<close> as an association list in insertion order: storing under an existing key
  replaces the value in place.
\<close>

fun dict_set :: "('k \<times> 'v) list \<Rightarrow> 'k \<Rightarrow> 'v \<Rightarrow> ('k \<times> 'v) list" where
  "dict_set [] k v = [(k, v)]"
| "dict_set ((k', v') # m) k v = (if k' = k then (k, v) # m else (k', v') # dict_set m k v)"

text \<open>
  \<^verbatim>\<open>
  def _merge_rare_levels(s, min_share=0.01):
      freq = s.value_counts(dropna=False, normalize=True)
      rare = freq[freq < min_share].index
      mapping = {str(k): ("Other" if k in rare else str(k)) for k in freq.index}
      if "XNA" in mapping:
          mapping["XNA"] = "XNA"
      s2 = s.astype("string").map(lambda x: mapping.get(str(x), str(x)))
      return s2, mapping
  \<close>
\<close>

definition merge_rare_levels ::
  "string option list \<Rightarrow> rat \<Rightarrow> string list \<times> (string \<times> string) list" where
  "merge_rare_levels s min_share =
     (let freq = value_counts s;
          rare = map fst (filter (\<lambda>(k, share). share < min_share) freq);
          mapping = fold (\<lambda>k m. dict_set m (py_str k)
                                   (if k \<in> set rare then ''Other'' else py_str k))
                         (map fst freq) [];
          mapping = (if ''XNA'' \<in> fst ` set mapping then dict_set mapping ''XNA'' ''XNA''
                     else mapping);
          s2 = map (\<lambda>x. case map_of mapping (py_str x) of
                            Some l \<Rightarrow> l | None \<Rightarrow> py_str x) s
      in (s2, mapping))"

section \<open>Dataframes\<close>

text \<open>
  A column of a dataframe has a dtype and cells: numeric (int64 and float64, NaN missing),
  \<^verbatim>\<open>object\<close> (strings as \<^verbatim>\<open>read_csv\<close> leaves them, NaN missing) or \<^verbatim>\<open>category\<close> (the list of
  categories, then the cells). A dataframe is the list of its named columns in column order;
  rows are positions.
\<close>

datatype column =
    NumCol "num list"
  | ObjCol "string option list"
  | CatCol "string list" "string option list"

type_synonym frame = "(string \<times> column) list"

text \<open>A cell value as Python sees it, for group keys and filter options.\<close>

datatype val = VNum rat | VStr string

fun col_len :: "column \<Rightarrow> nat" where
  "col_len (NumCol xs) = length xs"
| "col_len (ObjCol xs) = length xs"
| "col_len (CatCol cats xs) = length xs"

fun cells :: "column \<Rightarrow> val option list" where
  "cells (NumCol xs) = map (map_option VNum) xs"
| "cells (ObjCol xs) = map (map_option VStr) xs"
| "cells (CatCol cats xs) = map (map_option VStr) xs"

fun is_numeric_dtype :: "column \<Rightarrow> bool" where
  "is_numeric_dtype (NumCol xs) = True"
| "is_numeric_dtype _ = False"

fun is_object_dtype :: "column \<Rightarrow> bool" where
  "is_object_dtype (ObjCol xs) = True"
| "is_object_dtype _ = False"

fun is_categorical_dtype :: "column \<Rightarrow> bool" where
  "is_categorical_dtype (CatCol cats xs) = True"
| "is_categorical_dtype _ = False"

text \<open>\<^verbatim>\<open>s.isna()\<close>, boolean indexing \<^verbatim>\<open>s[mask]\<close> and positional reordering \<^verbatim>\<open>s.iloc[idx]\<close>.\<close>

definition isna :: "column \<Rightarrow> bool list" where
  "isna c = map (\<lambda>x. x = None) (cells c)"



fun take_idx :: "nat list \<Rightarrow> column \<Rightarrow> column" where
  "take_idx idx (NumCol xs) = NumCol (map ((!) xs) idx)"
| "take_idx idx (ObjCol xs) = ObjCol (map ((!) xs) idx)"
| "take_idx idx (CatCol cats xs) = CatCol cats (map ((!) xs) idx)"

text \<open>
  \<^verbatim>\<open>df.columns\<close>, \<^verbatim>\<open>df[c]\<close> (the first column of that name), \<^verbatim>\<open>df[c] = col\<close> (in place
  for an existing name, appended otherwise: \<open>dict_set\<close>), \<^verbatim>\<open>len(df)\<close>.
\<close>

definition columns :: "frame \<Rightarrow> string list" where
  "columns df = map fst df"

definition getitem :: "frame \<Rightarrow> string \<Rightarrow> column option" where
  "getitem df c = map_of df c"

definition nrows :: "frame \<Rightarrow> nat" where
  "nrows df = (case df of [] \<Rightarrow> 0 | (_, c) # _ \<Rightarrow> col_len c)"

text \<open>
  What every pandas dataframe satisfies: its columns have one length, and the cells of a
  categorical column are among its categories, which are distinct. (Column names are unique
  in every dataframe the code builds from a CSV file.)
\<close>

fun wf_column :: "column \<Rightarrow> bool" where
  "wf_column (CatCol cats xs) \<longleftrightarrow> distinct cats \<and> list_all (\<lambda>v. v \<in> set cats) (dropna xs)"
| "wf_column _ \<longleftrightarrow> True"

definition wf_frame :: "frame \<Rightarrow> bool" where
  "wf_frame df \<longleftrightarrow>
     distinct (columns df) \<and> list_all (\<lambda>(k, c). col_len c = nrows df \<and> wf_column c) df"

section \<open>Rate by category\<close>

definition TARGET :: string where
  "TARGET = ''TARGET''"

text \<open>
  \<^verbatim>\<open>groupby(col, dropna=False)\<close>: the group keys in sorted order, the missing value last. A
  categorical column groups by its categories in their order; whether a category that no row
  has still makes a group is the \<^verbatim>\<open>observed\<close> default of the installed pandas, a parameter
  here.
\<close>

fun group_keys :: "bool \<Rightarrow> column \<Rightarrow> val option list" where
  "group_keys observed (NumCol xs) =
     map (Some \<circ> VNum) (sort (remdups (dropna xs))) @ (if None \<in> set xs then [None] else [])"
| "group_keys observed (ObjCol xs) =
     map (Some \<circ> VStr) (sort (remdups (dropna xs))) @ (if None \<in> set xs then [None] else [])"
| "group_keys observed (CatCol cats xs) =
     map (Some \<circ> VStr) (if observed then filter (\<lambda>c. Some c \<in> set xs) cats else cats)
       @ (if None \<in> set xs then [None] else [])"

text \<open>The key column of the grouped result keeps the dtype of the grouping column.\<close>

fun key_column :: "bool \<Rightarrow> column \<Rightarrow> column" where
  "key_column observed (NumCol xs) =
     NumCol (map Some (sort (remdups (dropna xs))) @ (if None \<in> set xs then [None] else []))"
| "key_column observed (ObjCol xs) =
     ObjCol (map Some (sort (remdups (dropna xs))) @ (if None \<in> set xs then [None] else []))"
| "key_column observed (CatCol cats xs) =
     CatCol cats (map Some (if observed then filter (\<lambda>c. Some c \<in> set xs) cats else cats)
                    @ (if None \<in> set xs then [None] else []))"

text \<open>The outcome cells of the rows of one group; \<^verbatim>\<open>.mean()\<close> skips NaN; \<^verbatim>\<open>.size()\<close>.\<close>

definition group_of :: "val option list \<Rightarrow> num list \<Rightarrow> val option \<Rightarrow> num list" where
  "group_of keys ts k = map snd (filter (\<lambda>(c, t). c = k) (zip keys ts))"

definition mean :: "num list \<Rightarrow> num" where
  "mean xs = (let vs = dropna xs in
              if vs = [] then None else Some (sum_list vs / of_nat (length vs)))"

text \<open>
  \<^verbatim>\<open>sort_values(by, ascending=False)\<close> on a numeric column: the rows with a number by
  decreasing value, then the rows with NaN.
\<close>

definition argsort_desc :: "num list \<Rightarrow> nat list" where
  "argsort_desc xs =
     sort_key (\<lambda>i. - the (xs ! i)) (filter (\<lambda>i. xs ! i \<noteq> None) [0..<length xs])
       @ filter (\<lambda>i. xs ! i = None) [0..<length xs]"

definition sort_values_desc :: "frame \<Rightarrow> num list \<Rightarrow> frame" where
  "sort_values_desc df by = map (\<lambda>(k, c). (k, take_idx (argsort_desc by) c)) df"

text \<open>
  \<^verbatim>\<open>
  def by_category_rate(df, col):
      if TARGET not in df.columns or col not in df.columns:
          return pd.DataFrame(columns=[col, "Default_%", "count"])
      t = (df.groupby(col, dropna=False)[TARGET]
             .mean().mul(100.0).rename("Default_%").reset_index())
      t["count"] = df.groupby(col, dropna=False)[TARGET].size().values
      return t.sort_values("Default_%", ascending=False)
  \<close>
  The mean of an outcome column that is not numeric raises TypeError; \<^verbatim>\<open>reset_index\<close> raises
  ValueError when the grouping column is itself called \<^verbatim>\<open>Default_%\<close>.
\<close>

definition by_category_rate :: "bool \<Rightarrow> frame \<Rightarrow> string \<Rightarrow> error + frame" where
  "by_category_rate observed df col =
     (if TARGET \<notin> set (columns df) \<or> col \<notin> set (columns df)
      then Inr [(col, ObjCol []), (''Default_%'', ObjCol []), (''count'', ObjCol [])]
      else case (getitem df col, getitem df TARGET) of
             (Some g, Some (NumCol ts)) \<Rightarrow>
               if col = ''Default_%'' then Inl ValueError
               else
                 let keys = group_keys observed g;
                     rates = map (\<lambda>k. map_option (\<lambda>m. m * 100) (mean (group_of (cells g) ts k)))
                                 keys;
                     t = [(col, key_column observed g), (''Default_%'', NumCol rates)];
                     sizes = map (\<lambda>k. Some (of_nat (length (group_of (cells g) ts k)))) keys;
                     t = dict_set t ''count'' (NumCol sizes)
                 in Inr (sort_values_desc t rates)
           | _ \<Rightarrow> Inl TypeError)"

section \<open>Correlation helper\<close>

text \<open>
  \<^verbatim>\<open>s.std()\<close> is pandas' \<^verbatim>\<open>nanstd\<close>, the square root of \<^verbatim>\<open>nanvar\<close> with one degree of freedom
  removed, computed in float64 on the values cast to float64:
  \<^verbatim>\<open>
  avg = values.sum() / count
  sqr = (avg - values) ** 2
  result = sqr.sum() / (count - ddof)
  \<close>
  The order in which \<^verbatim>\<open>sum\<close> adds is numpy's, so the sum is the parameter \<open>fsum\<close>; for fewer
  than eight values numpy adds them one after the other (\<open>sum_in_order\<close>). The square root
  of a float64 is positive exactly when the float64 is, so \<^verbatim>\<open>s.std() > 0\<close> holds exactly when
  the computed variance is positive.
\<close>

definition nanvar :: "(fval list \<Rightarrow> fval) \<Rightarrow> rat list \<Rightarrow> fval" where
  "nanvar fsum vs =
     (let values = map float64_of vs;
          count = Fin (of_nat (length vs));
          d = Fin (of_nat (length vs) - 1);
          avg = fdiv (fsum values) count;
          sqr = map (\<lambda>x. let t = fsub avg x in fmul t t) values
      in fdiv (fsum sqr) d)"

definition std_positive :: "(fval list \<Rightarrow> fval) \<Rightarrow> rat list \<Rightarrow> bool" where
  "std_positive fsum vs \<longleftrightarrow>
     (case nanvar fsum vs of Fin v \<Rightarrow> 0 < v | PInf \<Rightarrow> True | _ \<Rightarrow> False)"

definition sum_in_order :: "fval list \<Rightarrow> fval" where
  "sum_in_order xs = foldl fadd (Fin 0) xs"

text \<open>
  A correlation matrix: its labels (rows and columns alike) and its rows. The empty
  \<^verbatim>\<open>pd.DataFrame()\<close> has no labels. The outcome vector is a series of labelled numbers.
\<close>

record corr_matrix =
  labels :: "string list"
  entries :: "num list list"

definition empty_matrix :: corr_matrix where
  "empty_matrix = \<lparr>labels = [], entries = []\<rparr>"

definition numeric_cells :: "frame \<Rightarrow> string \<Rightarrow> num list" where
  "numeric_cells df c = (case getitem df c of Some (NumCol xs) \<Rightarrow> xs | _ \<Rightarrow> [])"

text \<open>
  \<^verbatim>\<open>
  def compute_corr(df, method="spearman"):
      num_cols = [c for c in df.columns if pd.api.types.is_numeric_dtype(df[c])]
      keep = []
      for c in num_cols:
          s = df[c].dropna()
          if s.size > 2 and s.std() > 0:
              keep.append(c)
      if not keep:
          return pd.DataFrame(), pd.Series(dtype=float)
      corr = df[keep].corr(method=method)
      tgt_corr = (corr[TARGET].drop(labels=[TARGET], errors="ignore")
                  if TARGET in corr.columns else pd.Series(dtype=float))
      return corr, tgt_corr
  \<close>
  The coefficient of two columns under a method is the library's, the parameter \<open>coef\<close>,
  as is the sum inside \<^verbatim>\<open>s.std()\<close>, the parameter \<open>fsum\<close>;
  \<^verbatim>\<open>DataFrame.corr\<close> raises ValueError for a method it does not know.
\<close>

definition num_cols_of :: "frame \<Rightarrow> string list" where
  "num_cols_of df =
     filter (\<lambda>c. case getitem df c of Some col \<Rightarrow> is_numeric_dtype col | None \<Rightarrow> False)
            (columns df)"

definition keep_cols :: "(fval list \<Rightarrow> fval) \<Rightarrow> frame \<Rightarrow> string list" where
  "keep_cols fsum df =
     filter (\<lambda>c. let s = dropna (numeric_cells df c) in 2 < length s \<and> std_positive fsum s)
            (num_cols_of df)"

definition compute_corr ::
  "(string \<Rightarrow> num list \<Rightarrow> num list \<Rightarrow> num) \<Rightarrow> (fval list \<Rightarrow> fval) \<Rightarrow> frame \<Rightarrow> string
     \<Rightarrow> error + (corr_matrix \<times> (string \<times> num) list)" where
  "compute_corr coef fsum df method =
     (let keep = keep_cols fsum df in
      if keep = [] then Inr (empty_matrix, [])
      else if method \<notin> {''pearson'', ''kendall'', ''spearman''} then Inl ValueError
      else
        let corr = \<lparr>labels = keep,
                    entries = map (\<lambda>a. map (\<lambda>b. coef method (numeric_cells df a)
                                                              (numeric_cells df b)) keep) keep\<rparr>;
            tgt_corr = (if TARGET \<in> set (labels corr)
                        then map (\<lambda>a. (a, coef method (numeric_cells df a)
                                                       (numeric_cells df TARGET)))
                                 (filter (\<lambda>a. a \<noteq> TARGET) keep)
                        else [])
        in Inr (corr, tgt_corr))"

section \<open>The filter engine\<close>




















section \<open>The preprocessing pipeline\<close>

definition ID_COLS :: "string list" where
  "ID_COLS = [''SK_ID_CURR'']"

text \<open>
  Two conversions of Python itself are parameters of the pipeline: \<^verbatim>\<open>str(x)\<close> of a number,
  used by \<^verbatim>\<open>astype(str)\<close>, and \<^verbatim>\<open>float(s)\<close> of a string, used by \<^verbatim>\<open>astype(float)\<close>, which
  raises ValueError (here \<open>None\<close>) for a string that is not a number.
\<close>

record pylib =
  str_of_num :: "rat \<Rightarrow> string"
  float_of_str :: "string \<Rightarrow> num option"

text \<open>\<^verbatim>\<open>astype(str)\<close>: every cell becomes a string, a missing one the string \<^verbatim>\<open>nan\<close>.\<close>

fun astype_str :: "pylib \<Rightarrow> column \<Rightarrow> column" where
  "astype_str lib (NumCol xs) =
     ObjCol (map (\<lambda>x. Some (case x of None \<Rightarrow> ''nan'' | Some v \<Rightarrow> str_of_num lib v)) xs)"
| "astype_str lib (ObjCol xs) =
     ObjCol (map (\<lambda>x. Some (case x of None \<Rightarrow> ''nan'' | Some s \<Rightarrow> s)) xs)"
| "astype_str lib (CatCol cats xs) =
     ObjCol (map (\<lambda>x. Some (case x of None \<Rightarrow> ''nan'' | Some s \<Rightarrow> s)) xs)"

text \<open>\<^verbatim>\<open>astype("category")\<close>: the categories are the sorted distinct values.\<close>

fun astype_category :: "column \<Rightarrow> column" where
  "astype_category (ObjCol xs) = CatCol (sort (remdups (dropna xs))) xs"
| "astype_category (CatCol cats xs) = CatCol cats xs"
| "astype_category (NumCol xs) = NumCol xs"

text \<open>
  \<^verbatim>\<open>astype("string")\<close>: the cells of a column of strings, the numbers of a numeric column
  printed; a missing cell stays missing.
\<close>

fun string_cells :: "pylib \<Rightarrow> column \<Rightarrow> string option list" where
  "string_cells lib (ObjCol xs) = xs"
| "string_cells lib (CatCol cats xs) = xs"
| "string_cells lib (NumCol xs) = map (map_option (str_of_num lib)) xs"

text \<open>\<^verbatim>\<open>astype(float)\<close>: a numeric column as it is, a column of strings cell by cell.\<close>

fun floats_of :: "pylib \<Rightarrow> string option list \<Rightarrow> error + num list" where
  "floats_of lib [] = Inr []"
| "floats_of lib (None # xs) =
     (case floats_of lib xs of Inl e \<Rightarrow> Inl e | Inr ys \<Rightarrow> Inr (None # ys))"
| "floats_of lib (Some s # xs) =
     (case float_of_str lib s of
        None \<Rightarrow> Inl ValueError
      | Some v \<Rightarrow> (case floats_of lib xs of Inl e \<Rightarrow> Inl e | Inr ys \<Rightarrow> Inr (v # ys)))"

fun astype_float :: "pylib \<Rightarrow> column \<Rightarrow> error + num list" where
  "astype_float lib (NumCol xs) = Inr xs"
| "astype_float lib (ObjCol xs) = floats_of lib xs"
| "astype_float lib (CatCol cats xs) = floats_of lib xs"

text \<open>
  \<^verbatim>\<open>for c in cols: df[c] = g(df[c])\<close>, for column names taken from \<^verbatim>\<open>df.columns\<close>.
\<close>

definition map_column :: "(column \<Rightarrow> column) \<Rightarrow> frame \<Rightarrow> string \<Rightarrow> frame" where
  "map_column g df c = (case getitem df c of None \<Rightarrow> df | Some col \<Rightarrow> dict_set df c (g col))"

definition protected :: "string \<Rightarrow> bool" where
  "protected c \<longleftrightarrow> c \<in> set ID_COLS \<or> c = TARGET"

text \<open>
  \<^verbatim>\<open>
  for c in ID_COLS:
      if c in df.columns:
          df[c] = df[c].astype(str)
  obj_cols = [c for c in df.columns
              if df[c].dtype == "object" and c not in ID_COLS and c != TARGET_COL]
  for c in obj_cols:
      df[c] = df[c].astype("category")
  \<close>
\<close>

definition ids_as_strings :: "pylib \<Rightarrow> frame \<Rightarrow> frame" where
  "ids_as_strings lib df = fold (\<lambda>c d. map_column (astype_str lib) d c) ID_COLS df"

definition obj_cols :: "frame \<Rightarrow> string list" where
  "obj_cols df =
     filter (\<lambda>c. (case getitem df c of Some col \<Rightarrow> is_object_dtype col | None \<Rightarrow> False)
                  \<and> c \<notin> set ID_COLS \<and> c \<noteq> TARGET) (columns df)"

definition cast_objects :: "frame \<Rightarrow> frame" where
  "cast_objects df = fold (\<lambda>c d. map_column astype_category d c) (obj_cols df) df"

text \<open>
  The derived features. Arithmetic on a column that is not numeric raises TypeError.
  \<^verbatim>\<open>
  if "DAYS_BIRTH" in df.columns:
      df["AGE_YEARS"] = -df["DAYS_BIRTH"] / 365.25
  if "DAYS_EMPLOYED" in df.columns:
      df.loc[df["DAYS_EMPLOYED"] == 365243, "DAYS_EMPLOYED"] = np.nan
      df["EMPLOYMENT_YEARS"] = -df["DAYS_EMPLOYED"] / 365.25
  \<close>
\<close>

fun years_of_days :: "column \<Rightarrow> error + column" where
  "years_of_days (NumCol xs) = Inr (NumCol (map (map_option (\<lambda>v. - v / (1461 / 4))) xs))"
| "years_of_days _ = Inl TypeError"

fun drop_sentinel :: "column \<Rightarrow> column" where
  "drop_sentinel (NumCol xs) = NumCol (map (\<lambda>x. if x = Some 365243 then None else x) xs)"
| "drop_sentinel c = c"

definition derive_age :: "frame \<Rightarrow> error + frame" where
  "derive_age df =
     (case getitem df ''DAYS_BIRTH'' of
        None \<Rightarrow> Inr df
      | Some col \<Rightarrow>
          (case years_of_days col of
             Inl e \<Rightarrow> Inl e
           | Inr age \<Rightarrow> Inr (dict_set df ''AGE_YEARS'' age)))"

definition derive_employment :: "frame \<Rightarrow> error + frame" where
  "derive_employment df =
     (case getitem df ''DAYS_EMPLOYED'' of
        None \<Rightarrow> Inr df
      | Some col \<Rightarrow>
          let df = dict_set df ''DAYS_EMPLOYED'' (drop_sentinel col) in
          (case years_of_days (drop_sentinel col) of
             Inl e \<Rightarrow> Inl e
           | Inr emp \<Rightarrow> Inr (dict_set df ''EMPLOYMENT_YEARS'' emp)))"

text \<open>
  \<^verbatim>\<open>
  if {"AMT_ANNUITY", "AMT_INCOME_TOTAL"}.issubset(df.columns):
      df["DTI"] = _guard_ratio(df["AMT_ANNUITY"], df["AMT_INCOME_TOTAL"])
  \<close>
  and the same for \<^verbatim>\<open>LTI\<close> and \<^verbatim>\<open>ANNUITY_TO_CREDIT\<close>. The cells of a dataframe enter the
  guarded ratio as finite or NaN; what comes back is finite or NaN.
\<close>

definition of_num :: "num \<Rightarrow> fval" where
  "of_num x = (case x of None \<Rightarrow> NaN | Some q \<Rightarrow> Fin q)"

fun to_num :: "fval \<Rightarrow> num" where
  "to_num (Fin q) = Some q"
| "to_num _ = None"

fun guard_ratio_col :: "column \<Rightarrow> column \<Rightarrow> error + column" where
  "guard_ratio_col (NumCol a) (NumCol b) =
     Inr (NumCol (map to_num (guard_ratio (map of_num a) (map of_num b))))"
| "guard_ratio_col _ _ = Inl TypeError"

definition derive_ratio :: "string \<Rightarrow> string \<Rightarrow> string \<Rightarrow> frame \<Rightarrow> error + frame" where
  "derive_ratio name numer denom df =
     (case (getitem df numer, getitem df denom) of
        (Some a, Some b) \<Rightarrow>
          (case guard_ratio_col a b of
             Inl e \<Rightarrow> Inl e
           | Inr r \<Rightarrow> Inr (dict_set df name r))
      | _ \<Rightarrow> Inr df)"

text \<open>
  \<^verbatim>\<open>
  def summarize_missingness(df):
      m = df.isna().mean().sort_values(ascending=False) * 100
      return m.to_frame("missing_pct").reset_index(names="column")
  \<close>
  The mean over no rows is NaN.
\<close>

definition missing_pct :: "column \<Rightarrow> num" where
  "missing_pct c =
     (if col_len c = 0 then None
      else Some (of_nat (length (filter id (isna c))) / of_nat (col_len c) * 100))"

definition summarize_missingness :: "frame \<Rightarrow> (string \<times> num) list" where
  "summarize_missingness df =
     (let pcts = map (\<lambda>(k, c). missing_pct c) df
      in map (\<lambda>i. (columns df ! i, pcts ! i)) (argsort_desc pcts))"

text \<open>
  \<^verbatim>\<open>
  drop_cols = miss_tbl_before.loc[miss_tbl_before["missing_pct"] > 60, "column"].tolist()
  drop_cols = [c for c in drop_cols if c not in ID_COLS and c != TARGET_COL]
  df.drop(columns=drop_cols, errors="ignore", inplace=True)
  \<close>
\<close>

definition drop_cols_of :: "(string \<times> num) list \<Rightarrow> string list" where
  "drop_cols_of tbl =
     filter (\<lambda>c. c \<notin> set ID_COLS \<and> c \<noteq> TARGET)
            (map fst (filter (\<lambda>(c, p). case p of None \<Rightarrow> False | Some v \<Rightarrow> 60 < v) tbl))"

definition drop_columns :: "string list \<Rightarrow> frame \<Rightarrow> frame" where
  "drop_columns cs df = filter (\<lambda>(k, c). k \<notin> set cs) df"

text \<open>
  \<^verbatim>\<open>
  num_cols = [c for c in df.columns
              if pd.api.types.is_numeric_dtype(df[c]) and c not in ID_COLS and c != TARGET_COL]
  cat_cols = [c for c in df.columns
              if (pd.api.types.is_categorical_dtype(df[c]) or df[c].dtype == "object")
              and c not in ID_COLS and c != TARGET_COL]
  \<close>
\<close>

definition num_cols :: "frame \<Rightarrow> string list" where
  "num_cols df =
     filter (\<lambda>c. (case getitem df c of Some col \<Rightarrow> is_numeric_dtype col | None \<Rightarrow> False)
                  \<and> c \<notin> set ID_COLS \<and> c \<noteq> TARGET) (columns df)"

definition cat_cols :: "frame \<Rightarrow> string list" where
  "cat_cols df =
     filter (\<lambda>c. (case getitem df c of
                     Some col \<Rightarrow> is_categorical_dtype col \<or> is_object_dtype col
                   | None \<Rightarrow> False)
                  \<and> c \<notin> set ID_COLS \<and> c \<noteq> TARGET) (columns df)"

text \<open>
  Imputation of the numeric columns:
  \<^verbatim>\<open>
  for c in num_cols:
      if df[c].isna().any():
          df[c] = df[c].fillna(df[c].median())
  \<close>
  The median of no value is NaN, and filling with NaN changes nothing.
\<close>

definition median :: "num list \<Rightarrow> num" where
  "median xs =
     (let vs = sort (dropna xs); n = length vs in
      if n = 0 then None
      else if odd n then Some (vs ! (n div 2))
      else Some ((vs ! (n div 2 - 1) + vs ! (n div 2)) / 2))"

fun impute_median :: "column \<Rightarrow> column" where
  "impute_median (NumCol xs) =
     (if None \<in> set xs
      then NumCol (map (\<lambda>x. case x of None \<Rightarrow> median xs | Some v \<Rightarrow> Some v) xs)
      else NumCol xs)"
| "impute_median c = c"

definition impute_numeric :: "frame \<Rightarrow> frame" where
  "impute_numeric df = fold (\<lambda>c d. map_column impute_median d c) (num_cols df) df"

text \<open>
  Imputation of the categorical columns:
  \<^verbatim>\<open>
  for c in cat_cols:
      if df[c].isna().any():
          mode = df[c].mode(dropna=True)
          df[c] = df[c].fillna(mode.iloc[0] if not mode.empty else "Unknown").astype("category")
  \<close>
  \<^verbatim>\<open>mode\<close> lists the most frequent values in sorted order, for a categorical column in the
  order of its categories. Filling a categorical column with a value that is not one of its
  categories raises TypeError.
\<close>

definition first_mode :: "'a list \<Rightarrow> 'a list \<Rightarrow> 'a option" where
  "first_mode order vs =
     (case filter (\<lambda>c. c \<in> set vs \<and> (\<forall>d \<in> set vs. count_list vs d \<le> count_list vs c)) order of
        [] \<Rightarrow> None | c # _ \<Rightarrow> Some c)"

fun impute_mode :: "column \<Rightarrow> error + column" where
  "impute_mode (CatCol cats xs) =
     (if None \<in> set xs
      then (let fill = (case first_mode cats (dropna xs) of
                          None \<Rightarrow> ''Unknown'' | Some m \<Rightarrow> m)
            in if fill \<in> set cats
               then Inr (CatCol cats (map (\<lambda>x. case x of None \<Rightarrow> Some fill | Some v \<Rightarrow> Some v) xs))
               else Inl TypeError)
      else Inr (CatCol cats xs))"
| "impute_mode (ObjCol xs) =
     (if None \<in> set xs
      then (let fill = (case first_mode (sort (remdups (dropna xs))) (dropna xs) of
                          None \<Rightarrow> ''Unknown'' | Some m \<Rightarrow> m)
            in Inr (astype_category
                     (ObjCol (map (\<lambda>x. case x of None \<Rightarrow> Some fill | Some v \<Rightarrow> Some v) xs))))
      else Inr (ObjCol xs))"
| "impute_mode (NumCol xs) = Inr (NumCol xs)"

fun impute_categorical :: "string list \<Rightarrow> frame \<Rightarrow> error + frame" where
  "impute_categorical [] df = Inr df"
| "impute_categorical (c # cs) df =
     (case getitem df c of
        None \<Rightarrow> impute_categorical cs df
      | Some col \<Rightarrow>
          (case impute_mode col of
             Inl e \<Rightarrow> Inl e
           | Inr col' \<Rightarrow> impute_categorical cs (dict_set df c col')))"

text \<open>
  The rare-label merge:
  \<^verbatim>\<open>
  rare_maps = {}
  for c in cat_cols:
      merged, mapping = _merge_rare_levels(df[c].astype("string"), min_share=0.01)
      df[c] = merged.astype("category")
      rare_maps[c] = mapping
  \<close>
\<close>

type_synonym rare_maps = "(string \<times> (string \<times> string) list) list"

fun merge_rare ::
  "pylib \<Rightarrow> string list \<Rightarrow> frame \<times> rare_maps \<Rightarrow> frame \<times> rare_maps" where
  "merge_rare lib [] st = st"
| "merge_rare lib (c # cs) (df, maps) =
     (case getitem df c of
        None \<Rightarrow> merge_rare lib cs (df, maps)
      | Some col \<Rightarrow>
          (case merge_rare_levels (string_cells lib col) (1 / 100) of
             (merged, mapping) \<Rightarrow>
               merge_rare lib cs (dict_set df c (astype_category (ObjCol (map Some merged))),
                              dict_set maps c mapping)))"

text \<open>
  The winsorization:
  \<^verbatim>\<open>
  winsor_fields = [x for x in ["AMT_INCOME_TOTAL", "AMT_CREDIT", "AMT_ANNUITY",
                               "AMT_GOODS_PRICE", "DTI", "LTI"] if x in df.columns]
  winsor_params = {}
  for c in winsor_fields:
      df[c], params = _winsorize(df[c].astype(float), 0.01, 0.99)
      winsor_params[c] = params
  \<close>
\<close>

definition winsor_fields :: "frame \<Rightarrow> string list" where
  "winsor_fields df =
     filter (\<lambda>x. x \<in> set (columns df))
            [''AMT_INCOME_TOTAL'', ''AMT_CREDIT'', ''AMT_ANNUITY'', ''AMT_GOODS_PRICE'',
             ''DTI'', ''LTI'']"

type_synonym winsor_table = "(string \<times> winsor_params) list"

fun winsorize_fields ::
  "pylib \<Rightarrow> string list \<Rightarrow> frame \<times> winsor_table \<Rightarrow> error + (frame \<times> winsor_table)" where
  "winsorize_fields lib [] st = Inr st"
| "winsorize_fields lib (c # cs) (df, ps) =
     (case getitem df c of
        None \<Rightarrow> Inl KeyError
      | Some col \<Rightarrow>
          (case astype_float lib col of
             Inl e \<Rightarrow> Inl e
           | Inr xs \<Rightarrow>
               (case winsorize xs (1 / 100) (99 / 100) of
                  Inl e \<Rightarrow> Inl e
                | Inr (out, params) \<Rightarrow>
                    winsorize_fields lib cs (dict_set df c (NumCol out), dict_set ps c params))))"

text \<open>
  The income brackets:
  \<^verbatim>\<open>
  if "AMT_INCOME_TOTAL" in df.columns:
      q1 = df["AMT_INCOME_TOTAL"].quantile(0.25)
      q3 = df["AMT_INCOME_TOTAL"].quantile(0.75)
      def _br(x):
          if x <= q1: return "Low"
          if x > q3:  return "High"
          return "Mid"
      df["INCOME_BRACKET"] = df["AMT_INCOME_TOTAL"].apply(_br).astype("category")
  \<close>
  A comparison with NaN is false. The income column is numeric here: it has just been
  winsorized.
\<close>

definition br :: "num \<Rightarrow> num \<Rightarrow> num \<Rightarrow> string" where
  "br q1 q3 x =
     (if (case (x, q1) of (Some v, Some q) \<Rightarrow> v \<le> q | _ \<Rightarrow> False) then ''Low''
      else if (case (x, q3) of (Some v, Some q) \<Rightarrow> q < v | _ \<Rightarrow> False) then ''High''
      else ''Mid'')"

definition income_brackets :: "frame \<Rightarrow> error + frame" where
  "income_brackets df =
     (case getitem df ''AMT_INCOME_TOTAL'' of
        None \<Rightarrow> Inr df
      | Some (NumCol xs) \<Rightarrow>
          let q1 = quantile xs (1 / 4); q3 = quantile xs (3 / 4)
          in Inr (dict_set df ''INCOME_BRACKET''
                    (astype_category (ObjCol (map (\<lambda>x. Some (br q1 q3 x)) xs))))
      | Some _ \<Rightarrow> Inl TypeError)"

text \<open>The artifacts record returned beside the cleaned dataframe.\<close>

record artifacts =
  dropped_cols :: "string list"
  winsor_params :: winsor_table
  missingness_before :: "(string \<times> num) list"
  missingness_after :: "(string \<times> num) list"
  rare_maps :: rare_maps
  art_notes :: "string list"

definition pipeline_notes :: "string list" where
  "pipeline_notes =
     [''IDs excluded from categorical/rare-merge.'',
      ''Imputed numeric=median; categorical=mode.'',
      ''Winsorized 1% tails for income/credit/annuity/goods, DTI, LTI.'',
      ''DAYS_EMPLOYED==365243 treated as missing (unemployed).'',
      ''Ratios guard against invalid denominators.'']"

text \<open>The derived features in the order of the source, stopping at the first exception.\<close>

definition derive_features :: "frame \<Rightarrow> error + frame" where
  "derive_features df =
     (case derive_age df of
        Inl e \<Rightarrow> Inl e
      | Inr df \<Rightarrow>
          (case derive_employment df of
             Inl e \<Rightarrow> Inl e
           | Inr df \<Rightarrow>
               (case derive_ratio ''DTI'' ''AMT_ANNUITY'' ''AMT_INCOME_TOTAL'' df of
                  Inl e \<Rightarrow> Inl e
                | Inr df \<Rightarrow>
                    (case derive_ratio ''LTI'' ''AMT_CREDIT'' ''AMT_INCOME_TOTAL'' df of
                       Inl e \<Rightarrow> Inl e
                     | Inr df \<Rightarrow>
                         derive_ratio ''ANNUITY_TO_CREDIT'' ''AMT_ANNUITY'' ''AMT_CREDIT'' df))))"

text \<open>
  \<^verbatim>\<open>preprocess_application_train\<close> on the working copy \<^verbatim>\<open>df = df.copy()\<close>: the steps above in
  the order of the source; the result is the cleaned dataframe and the artifacts.
\<close>

definition preprocess_frame :: "pylib \<Rightarrow> frame \<Rightarrow> error + (frame \<times> artifacts)" where
  "preprocess_frame lib df0 =
     (let df = cast_objects (ids_as_strings lib df0) in
      (case derive_features df of
         Inl e \<Rightarrow> Inl e
       | Inr df \<Rightarrow>
           (let miss_tbl_before = summarize_missingness df;
                drop_cols = drop_cols_of miss_tbl_before;
                df = drop_columns drop_cols df;
                cats = cat_cols df;
                df = impute_numeric df
            in (case impute_categorical cats df of
                  Inl e \<Rightarrow> Inl e
                | Inr df \<Rightarrow>
                    (case merge_rare lib cats (df, []) of
                       (df, maps) \<Rightarrow>
                         (case winsorize_fields lib (winsor_fields df) (df, []) of
                            Inl e \<Rightarrow> Inl e
                          | Inr (df, wp) \<Rightarrow>
                              (case income_brackets df of
                                 Inl e \<Rightarrow> Inl e
                               | Inr df \<Rightarrow>
                                   Inr (df, \<lparr>dropped_cols = drop_cols,
                                             winsor_params = wp,
                                             missingness_before = miss_tbl_before,
                                             missingness_after = summarize_missingness df,
                                             rare_maps = maps,
                                             art_notes = pipeline_notes\<rparr>))))))))"

section \<open>Dataframes as objects\<close>

text \<open>
  A dataframe variable of the Python code is a reference to a dataframe object, and
  \<^verbatim>\<open>df[c] = ...\<close>, \<^verbatim>\<open>df.loc[...] = ...\<close> and \<^verbatim>\<open>df.drop(..., inplace=True)\<close> change the object in
  place, for everyone who holds a reference to it. The store lists the dataframe objects; a
  reference is a position in it. \<^verbatim>\<open>df.copy()\<close> makes a new object with the same content.
\<close>

type_synonym addr = nat

type_synonym store = "frame list"

definition copy :: "addr \<Rightarrow> store \<Rightarrow> addr \<times> store" where
  "copy a s = (length s, s @ [s ! a])"

text \<open>An in-place change of the object at \<open>w\<close>, and one that may raise before it is done.\<close>

definition update_at :: "addr \<Rightarrow> (frame \<Rightarrow> frame) \<Rightarrow> store \<Rightarrow> store" where
  "update_at w f s = s[w := f (s ! w)]"

definition try_update_at :: "addr \<Rightarrow> (frame \<Rightarrow> error + frame) \<Rightarrow> store \<Rightarrow> error + store" where
  "try_update_at w f s = (case f (s ! w) of Inl e \<Rightarrow> Inl e | Inr d \<Rightarrow> Inr (s[w := d]))"

text \<open>
  \<^verbatim>\<open>preprocess_application_train(df)\<close> with its argument a reference: the first statement
  \<^verbatim>\<open>df = df.copy()\<close> rebinds the local name to a new object, and every later statement reads
  and writes the object the local name refers to. The function returns that reference and
  the artifacts; when a step raises, the store is what it was before that step (what the
  step had already written to the working copy, which nobody can reach any more, is not
  recorded).
\<close>

definition preprocess_application_train ::
  "pylib \<Rightarrow> addr \<Rightarrow> store \<Rightarrow> store \<times> (error + (addr \<times> artifacts))" where
  "preprocess_application_train lib a s0 =
     (case copy a s0 of
        (df, s) \<Rightarrow>
          let s = update_at df (ids_as_strings lib) s;
              s = update_at df cast_objects s
          in (case try_update_at df derive_features s of
                Inl e \<Rightarrow> (s, Inl e)
              | Inr s \<Rightarrow>
                  let miss_tbl_before = summarize_missingness (s ! df);
                      drop_cols = drop_cols_of miss_tbl_before;
                      s = update_at df (drop_columns drop_cols) s;
                      cats = cat_cols (s ! df);
                      s = update_at df impute_numeric s
                  in (case try_update_at df (impute_categorical cats) s of
                        Inl e \<Rightarrow> (s, Inl e)
                      | Inr s \<Rightarrow>
                          (case merge_rare lib cats (s ! df, []) of
                             (merged, maps) \<Rightarrow>
                               let s = s[df := merged] in
                               (case winsorize_fields lib (winsor_fields (s ! df)) (s ! df, []) of
                                  Inl e \<Rightarrow> (s, Inl e)
                                | Inr (winsorized, wp) \<Rightarrow>
                                    let s = s[df := winsorized] in
                                    (case try_update_at df income_brackets s of
                                       Inl e \<Rightarrow> (s, Inl e)
                                     | Inr s \<Rightarrow>
                                         (s, Inr (df,
                                            \<lparr>dropped_cols = drop_cols,
                                             winsor_params = wp,
                                             missingness_before = miss_tbl_before,
                                             missingness_after = summarize_missingness (s ! df),
                                             rare_maps = maps,
                                             art_notes = pipeline_notes\<rparr>))))))))"

text \<open>
  \<^verbatim>\<open>Home.py\<close> keeps three references in the session state:
  \<^verbatim>\<open>
  clean_df, artifacts = preprocess_application_train(df)
  st.session_state["raw_df"] = df
  st.session_state["clean_df"] = clean_df
  st.session_state["artifacts"] = artifacts
  \<close>
\<close>

record session =
  raw_df :: addr
  clean_df :: addr
  session_artifacts :: artifacts

definition home_session :: "pylib \<Rightarrow> addr \<Rightarrow> store \<Rightarrow> store \<times> (error + session)" where
  "home_session lib df s0 =
     (case preprocess_application_train lib df s0 of
        (s, Inl e) \<Rightarrow> (s, Inl e)
      | (s, Inr (clean, art)) \<Rightarrow>
          (s, Inr \<lparr>raw_df = df, clean_df = clean, session_artifacts = art\<rparr>))"


section \<open>Example data\<close>

text \<open>The scenario of the specification: five applicants, their outcome and gender.\<close>

definition example_frame :: frame where
  "example_frame =
     [(''TARGET'', NumCol [Some 1, Some 0, Some 0, Some 1, Some 0]),
      (''CODE_GENDER'', ObjCol [Some ''M'', Some ''F'', Some ''M'', Some ''F'', Some ''M''])]"

text \<open>
  A column that holds 0.1 three times. The float64 nearest to 0.1 is
  \<open>3602879701896397 / 2^55\<close>.
\<close>

definition example_rate :: frame where
  "example_rate =
     [(''RATE'', NumCol [Some (3602879701896397 / 36028797018963968),
                         Some (3602879701896397 / 36028797018963968),
                         Some (3602879701896397 / 36028797018963968)])]"

text \<open>
  A raw dataset of three applicants with a missing gender. The identifiers are whole
  numbers, which \<^verbatim>\<open>str\<close> prints in decimal; no string has to be read as a number.
\<close>

function decimal :: "int \<Rightarrow> string" where
  "decimal n = (if n < 10 then [''0123456789'' ! nat n]
                else decimal (n div 10) @ [''0123456789'' ! nat (n mod 10)])"
  by pat_completeness auto

termination decimal
  by (relation "measure nat") auto

definition example_lib :: pylib where
  "example_lib = \<lparr>str_of_num = (\<lambda>q. decimal \<lfloor>q\<rfloor>), float_of_str = (\<lambda>s. None)\<rparr>"

definition example_raw :: frame where
  "example_raw =
     [(''SK_ID_CURR'', NumCol [Some 100001, Some 100002, Some 100003]),
      (''TARGET'', NumCol [Some 1, Some 0, Some 1]),
      (''CODE_GENDER'', ObjCol [Some ''M'', None, Some ''F'']),
      (''AMT_INCOME_TOTAL'', NumCol [Some 100, Some 200, Some 300])]"

text \<open>What the pipeline makes of it.\<close>

definition example_clean :: frame where
  "example_clean =
     [(''SK_ID_CURR'', ObjCol [Some ''100001'', Some ''100002'', Some ''100003'']),
      (''TARGET'', NumCol [Some 1, Some 0, Some 1]),
      (''CODE_GENDER'', CatCol [''F'', ''M''] [Some ''M'', Some ''F'', Some ''F'']),
      (''AMT_INCOME_TOTAL'', NumCol [Some 102, Some 200, Some 298]),
      (''INCOME_BRACKET'',
         CatCol [''High'', ''Low'', ''Mid''] [Some ''Low'', Some ''Mid'', Some ''High''])]"

definition example_artifacts :: artifacts where
  "example_artifacts =
     \<lparr>dropped_cols = [],
      winsor_params = [(''AMT_INCOME_TOTAL'', \<lparr>low = Some 102, high = Some 298\<rparr>)],
      missingness_before =
        [(''CODE_GENDER'', Some (100 / 3)), (''SK_ID_CURR'', Some 0), (''TARGET'', Some 0),
         (''AMT_INCOME_TOTAL'', Some 0)],
      missingness_after =
        [(''SK_ID_CURR'', Some 0), (''TARGET'', Some 0), (''CODE_GENDER'', Some 0),
         (''AMT_INCOME_TOTAL'', Some 0), (''INCOME_BRACKET'', Some 0)],
      rare_maps = [(''CODE_GENDER'', [(''F'', ''F''), (''M'', ''M'')])],
      art_notes = pipeline_notes\<rparr>"



section \<open>Properties of float64 rounding\<close>

declare bitlen.simps [simp del]

lemma bitlen_nonneg: "0 \<le> bitlen n"
  by (induction n rule: bitlen.induct) (subst bitlen.simps, simp)

lemma bitlen_pos: "0 < n \<Longrightarrow> 0 < bitlen n"
  using bitlen_nonneg [of "n div 2"] by (subst bitlen.simps) simp

lemma bitlen_bounds:
  "0 < n \<Longrightarrow> 2 ^ nat (bitlen n - 1) \<le> n \<and> n < 2 ^ nat (bitlen n)"
proof (induction n rule: bitlen.induct)
  case (1 n)
  show ?case
  proof (cases "n = 1")
    case True
    have "bitlen 1 = 1" by (simp add: bitlen.simps [of 1] bitlen.simps [of 0])
    with True show ?thesis by simp
  next
    case False
    with 1 have h: "0 < n div 2" by simp
    from 1 have ih: "2 ^ nat (bitlen (n div 2) - 1) \<le> n div 2"
                    "n div 2 < 2 ^ nat (bitlen (n div 2))"
      using h by simp_all
    have b: "bitlen n = 1 + bitlen (n div 2)" using 1(2) by (subst bitlen.simps) simp
    have p: "0 < bitlen (n div 2)" using h by (rule bitlen_pos)
    have e1: "nat (bitlen n - 1) = Suc (nat (bitlen (n div 2) - 1))" using b p by simp
    have e2: "nat (bitlen n) = Suc (nat (bitlen (n div 2)))" using b p by simp
    have "2 * 2 ^ nat (bitlen (n div 2) - 1) \<le> 2 * (n div 2)" using ih(1) by simp
    also have "\<dots> \<le> n" by simp
    finally have l: "2 ^ nat (bitlen n - 1) \<le> n" by (simp add: e1)
    have "n div 2 + 1 \<le> 2 ^ nat (bitlen (n div 2))" using ih(2) by simp
    then have "2 * (n div 2 + 1) \<le> 2 * 2 ^ nat (bitlen (n div 2))" by simp
    moreover have "n < 2 * (n div 2 + 1)" by simp
    ultimately have u: "n < 2 ^ nat (bitlen n)" by (simp add: e2)
    from l u show ?thesis ..
  qed
qed

lemma powi_two_unique:
  fixes q :: rat
  assumes "2 powi a \<le> q" "q < 2 powi (a + 1)" "2 powi b \<le> q" "q < 2 powi (b + 1)"
  shows "a = b"
proof (rule ccontr)
  assume "a \<noteq> b"
  then consider "a + 1 \<le> b" | "b + 1 \<le> a" by linarith
  then show False
  proof cases
    case 1
    then have "(2::rat) powi (a + 1) \<le> 2 powi b" by (intro power_int_increasing) simp_all
    with assms show False by linarith
  next
    case 2
    then have "(2::rat) powi (b + 1) \<le> 2 powi a" by (intro power_int_increasing) simp_all
    with assms show False by linarith
  qed
qed

lemma of_int_bitlen_bounds:
  assumes "0 < n"
  shows "2 powi (bitlen n - 1) \<le> (of_int n :: rat)" "(of_int n :: rat) < 2 powi bitlen n"
proof -
  from bitlen_bounds [OF assms] have l: "2 ^ nat (bitlen n - 1) \<le> n" and u: "n < 2 ^ nat (bitlen n)"
    by simp_all
  have p: "0 < bitlen n" using assms by (rule bitlen_pos)
  from l have "(of_int (2 ^ nat (bitlen n - 1)) :: rat) \<le> of_int n" by (simp only: of_int_le_iff)
  then show "2 powi (bitlen n - 1) \<le> (of_int n :: rat)" using p by (simp add: power_int_def)
  from u have "(of_int n :: rat) < of_int (2 ^ nat (bitlen n))" by (simp only: of_int_less_iff)
  then show "(of_int n :: rat) < 2 powi bitlen n" using p by (simp add: power_int_def)
qed

lemma exponent_bounds:
  assumes "q \<noteq> 0"
  shows "2 powi exponent q \<le> \<bar>q\<bar>" "\<bar>q\<bar> < 2 powi (exponent q + 1)"
proof -
  obtain p d where pd: "quotient_of \<bar>q\<bar> = (p, d)" by (cases "quotient_of \<bar>q\<bar>")
  then have d: "0 < d" by (rule quotient_of_denom_pos)
  from pd have q: "\<bar>q\<bar> = of_int p / of_int d" by (rule quotient_of_div)
  have "0 < \<bar>q\<bar>" using assms by simp
  with q d have p: "0 < p" by (simp add: zero_less_divide_iff)
  define e where "e = bitlen p - bitlen d"
  note bp = of_int_bitlen_bounds [OF p] and bd = of_int_bitlen_bounds [OF d]
  have dpos: "(0::rat) < of_int d" using d by simp
  have pw: "(0::rat) < 2 powi (bitlen d - 1)" by simp
  have "of_int p / of_int d < 2 powi bitlen p / (2 powi (bitlen d - 1) :: rat)"
    using p bp(2) pw bd(1) by (intro frac_less) simp_all
  also have "\<dots> = 2 powi (bitlen p - (bitlen d - 1))"
    by (rule power_int_diff [symmetric]) simp
  also have "bitlen p - (bitlen d - 1) = e + 1" by (simp add: e_def)
  finally have up: "\<bar>q\<bar> < 2 powi (e + 1)" by (simp add: q)
  have "2 powi (e - 1) = 2 powi (bitlen p - 1) / (2 powi bitlen d :: rat)"
    by (simp add: e_def power_int_diff)
  also have "\<dots> \<le> of_int p / of_int d"
    using p bp(1) dpos bd(2) by (intro frac_le) simp_all
  finally have lo: "2 powi (e - 1) \<le> \<bar>q\<bar>" by (simp add: q)
  have ex: "exponent q = (if 2 powi e \<le> \<bar>q\<bar> then e else e - 1)"
    by (simp add: exponent_def pd e_def Let_def)
  show "2 powi exponent q \<le> \<bar>q\<bar>" using lo by (simp add: ex)
  show "\<bar>q\<bar> < 2 powi (exponent q + 1)" using up by (auto simp: ex not_le)
qed

lemma exponent_eq:
  assumes "2 powi e \<le> \<bar>q\<bar>" "\<bar>q\<bar> < 2 powi (e + 1)"
  shows "exponent q = e"
proof -
  have "(0::rat) < 2 powi e" by simp
  with assms(1) have "0 < \<bar>q\<bar>" by linarith
  then have "q \<noteq> 0" by simp
  from exponent_bounds [OF this] assms show ?thesis by (intro powi_two_unique [of _ "\<bar>q\<bar>"])
qed

lemma round_half_even_eq:
  assumes "\<bar>x - of_int n\<bar> < 1 / 2"
  shows "round_half_even x = n"
proof -
  from assms have a: "of_int n - 1 / 2 < x" "x < of_int n + 1 / 2" by linarith+
  consider "\<lfloor>x\<rfloor> = n" | "\<lfloor>x\<rfloor> = n - 1"
  proof -
    have "of_int (n - 1) \<le> x" using a(1) by simp
    then have "n - 1 \<le> \<lfloor>x\<rfloor>" by (simp only: le_floor_iff)
    moreover have "x < of_int (n + 1)" using a(2) by simp
    then have "\<lfloor>x\<rfloor> < n + 1" by (simp only: floor_less_iff)
    ultimately show ?thesis using that by linarith
  qed
  then show ?thesis
  proof cases
    case 1
    then show ?thesis using a by (simp add: round_half_even_def Let_def)
  next
    case 2
    then show ?thesis using a by (simp add: round_half_even_def Let_def)
  qed
qed

lemma round_half_even_of_int [simp]: "round_half_even (of_int n) = n"
  by (rule round_half_even_eq) simp


text \<open>Finite results, overflow, zero.\<close>

lemma float64_of_value:
  assumes "2 powi e \<le> \<bar>q\<bar>" "\<bar>q\<bar> < 2 powi (e + 1)"
      and "u = max e (- 1022) - 52"
      and "\<bar>q / 2 powi u - of_int n\<bar> < 1 / 2"
  shows "float64_of q =
     (if 2 ^ 1024 \<le> (of_int n * 2 powi u :: rat) then PInf
      else if (of_int n * 2 powi u :: rat) \<le> - (2 ^ 1024) then NInf
      else Fin (of_int n * 2 powi u))"
  unfolding float64_of_def exponent_eq [OF assms(1,2)] assms(3) [symmetric] Let_def
            round_half_even_eq [OF assms(4)]
  by (rule refl)

lemma round_half_even_tie:
  "x = of_int m + 1 / 2 \<Longrightarrow> round_half_even x = (if even m then m else m + 1)"
proof -
  assume x: "x = of_int m + 1 / 2"
  have "\<lfloor>x\<rfloor> = m" unfolding x by (rule floor_unique) simp_all
  then show ?thesis by (simp add: round_half_even_def Let_def x)
qed

lemma float64_of_tie:
  assumes "2 powi e \<le> \<bar>q\<bar>" "\<bar>q\<bar> < 2 powi (e + 1)"
      and "u = max e (- 1022) - 52"
      and "q / 2 powi u = of_int m + 1 / 2"
      and "n = (if even m then m else m + 1)"
  shows "float64_of q =
     (if 2 ^ 1024 \<le> (of_int n * 2 powi u :: rat) then PInf
      else if (of_int n * 2 powi u :: rat) \<le> - (2 ^ 1024) then NInf
      else Fin (of_int n * 2 powi u))"
  unfolding float64_of_def exponent_eq [OF assms(1,2)] assms(3) [symmetric] Let_def
            round_half_even_tie [OF assms(4)] assms(5) [symmetric]
  by (rule refl)

lemma float64_of_zero [simp]: "float64_of 0 = Fin 0"
proof -
  have "round_half_even 0 = 0" using round_half_even_of_int [of 0] by simp
  then show ?thesis by (simp add: float64_of_def Let_def)
qed






section \<open>Properties of the guarded ratio\<close>







section \<open>Properties of the winsorizer\<close>

lemma clip_cell_idem_ordered:
  "a \<le> b \<Longrightarrow> clip_cell (Some a) (Some b) (clip_cell (Some a) (Some b) x) = clip_cell (Some a) (Some b) x"
  by (auto simp: clip_cell_def Let_def split: option.splits)

lemma clip_cell_idem_open:
  "l = None \<or> u = None \<Longrightarrow> clip_cell l u (clip_cell l u x) = clip_cell l u x"
  by (auto simp: clip_cell_def Let_def split: option.splits)

lemma clip_twice: "clip lo hi (clip lo hi xs) = clip lo hi xs"
proof (cases lo)
  case None
  then show ?thesis by (simp add: clip_def clip_cell_idem_open)
next
  case (Some a)
  show ?thesis
  proof (cases hi)
    case None
    with Some show ?thesis by (simp add: clip_def clip_cell_idem_open)
  next
    case (Some b)
    have "min a b \<le> max a b" by simp
    from clip_cell_idem_ordered [OF this] \<open>lo = Some a\<close> Some
    show ?thesis by (simp add: clip_def)
  qed
qed

lemma dropna_set: "set (dropna xs) = {v. Some v \<in> set xs}"
  by (induction xs) (auto simp: dropna_def List.map_filter_simps split: option.splits)

lemma lerp_bounds: "a \<le> b \<Longrightarrow> 0 \<le> t \<Longrightarrow> t \<le> 1 \<Longrightarrow> a \<le> lerp a b t \<and> lerp a b t \<le> b"
proof -
  assume h: "a \<le> b" "0 \<le> t" "t \<le> 1"
  have "0 \<le> (b - a) * t" using h by simp
  moreover have "(b - a) * t \<le> (b - a) * 1" using h by (intro mult_left_mono) auto
  ultimately show ?thesis by (simp add: lerp_def)
qed

lemma lerp_mono: "a \<le> b \<Longrightarrow> s \<le> t \<Longrightarrow> lerp a b s \<le> lerp a b t"
  by (simp add: lerp_def mult_left_mono)

lemma percentile_mono:
  assumes "sorted vs" "vs \<noteq> []" "0 \<le> p" "p \<le> q" "q \<le> 1"
  shows "percentile vs p \<le> percentile vs q"
proof -
  define n where "n = length vs"
  define m where "m = n - 1"
  have n: "0 < n" using assms(2) by (simp add: n_def)
  define hp where "hp = of_nat m * p"
  define hq where "hq = of_nat m * q"
  define jp where "jp = nat \<lfloor>hp\<rfloor>"
  define jq where "jq = nat \<lfloor>hq\<rfloor>"
  have hp0: "0 \<le> hp" using assms by (simp add: hp_def)
  have hpq: "hp \<le> hq" using assms by (simp add: hp_def hq_def mult_left_mono)
  have hqm: "hq \<le> of_nat m" using assms mult_left_mono [of q 1 "of_nat m"] by (simp add: hq_def)
  have hq0: "0 \<le> hq" using hp0 hpq by simp
  have fp: "of_int \<lfloor>hp\<rfloor> = (of_nat jp :: rat)" using hp0 by (simp add: jp_def)
  have fq: "of_int \<lfloor>hq\<rfloor> = (of_nat jq :: rat)" using hq0 by (simp add: jq_def)
  have jpq: "jp \<le> jq" using hpq by (simp add: jp_def jq_def floor_mono nat_mono)
  have "\<lfloor>hq\<rfloor> \<le> int m" using hqm by (simp add: floor_le_iff)
  hence jqm: "jq \<le> m" by (simp add: jq_def)
  have srt: "\<And>i j. i \<le> j \<Longrightarrow> j \<le> m \<Longrightarrow> vs ! i \<le> vs ! j"
  proof -
    fix i j assume "i \<le> j" "j \<le> m"
    moreover from this assms(2) have "j < length vs" by (cases vs) (auto simp: m_def n_def)
    ultimately show "vs ! i \<le> vs ! j" using assms(1) by (simp add: sorted_iff_nth_mono)
  qed
  have gp: "0 \<le> hp - of_nat jp \<and> hp - of_nat jp < 1"
    using fp floor_correct [of hp] by linarith
  have gq: "0 \<le> hq - of_nat jq \<and> hq - of_nat jq < 1"
    using fq floor_correct [of hq] by linarith
  have P: "percentile vs p = lerp (vs ! jp) (vs ! min (jp + 1) m) (hp - of_nat jp)"
    using fp unfolding percentile_def Let_def n_def m_def hp_def jp_def by simp
  have Q: "percentile vs q = lerp (vs ! jq) (vs ! min (jq + 1) m) (hq - of_nat jq)"
    using fq unfolding percentile_def Let_def n_def m_def hq_def jq_def by simp
  have sp: "vs ! jp \<le> vs ! min (jp + 1) m" using jpq jqm by (intro srt) auto
  have sq: "vs ! jq \<le> vs ! min (jq + 1) m" using jqm by (intro srt) auto
  show ?thesis
  proof (cases "jp = jq")
    case True
    then show ?thesis unfolding P Q using sq hpq by (simp add: lerp_mono)
  next
    case False
    with jpq have lt: "jp + 1 \<le> jq" by simp
    have "percentile vs p \<le> vs ! min (jp + 1) m"
      unfolding P using lerp_bounds [OF sp] gp by simp
    also have "\<dots> \<le> vs ! jq" using lt jqm by (intro srt) auto
    also have "\<dots> \<le> percentile vs q"
      unfolding Q using lerp_bounds [OF sq] gq by simp
    finally show ?thesis .
  qed
qed

lemma quantile_mono:
  assumes "0 \<le> p" "p \<le> q" "q \<le> 1" "quantile s p = Some a" "quantile s q = Some b"
  shows "a \<le> b"
  using assms percentile_mono [of "sort (dropna s)" p q]
  by (auto simp: quantile_def Let_def split: if_splits)

lemma clip_cell_range:
  "a \<le> b \<Longrightarrow> clip_cell (Some a) (Some b) x = Some v \<Longrightarrow> a \<le> v \<and> v \<le> b"
  by (auto simp: clip_cell_def Let_def split: option.splits if_splits)

lemma quantile_Some: "Some v \<in> set s \<Longrightarrow> \<exists>a. quantile s q = Some a"
  using dropna_set [of s] by (auto simp: quantile_def Let_def) (metis empty_iff empty_set mem_Collect_eq set_sort)

text \<open>
  For a column of finite cells and in exact arithmetic, the two quantiles are ordered and
  every non-missing value of the winsorized column lies in the closed interval of the two
  recorded bounds. (An infinite cell is outside this model of a numeric cell.)
\<close>

lemma winsorize_within_bounds:
  assumes "winsorize series (1 / 100) (99 / 100) = Inr (out, params)"
      and "Some v \<in> set out"
  shows "\<exists>lo hi. low params = Some lo \<and> high params = Some hi \<and> lo \<le> v \<and> v \<le> hi"
proof -
  have out: "out = clip (quantile series (1 / 100)) (quantile series (99 / 100)) series"
    and par: "params = \<lparr>low = quantile series (1 / 100), high = quantile series (99 / 100)\<rparr>"
    using assms(1) by (auto simp: winsorize_def Let_def)
  from assms(2) obtain x where x: "x \<in> set series" "Some v = (case (quantile series (1 / 100), quantile series (99 / 100)) of (Some a, Some b) \<Rightarrow> clip_cell (Some (min a b)) (Some (max a b)) x | _ \<Rightarrow> clip_cell (quantile series (1 / 100)) (quantile series (99 / 100)) x)"
    unfolding out clip_def by (auto split: option.splits)
  then obtain w where w: "x = Some w" by (cases x) (auto simp: clip_cell_def split: option.splits)
  with x(1) obtain lo hi where lh: "quantile series (1 / 100) = Some lo" "quantile series (99 / 100) = Some hi"
    using quantile_Some by blast
  have le: "lo \<le> hi" using quantile_mono [OF _ _ _ lh] by simp
  from x(2) lh le have "clip_cell (Some lo) (Some hi) x = Some v" by (simp add: min_def max_def)
  from clip_cell_range [OF le this] lh par show ?thesis by simp
qed


lemma winsorize_example:
  "winsorize [Some 1, None, Some 5, Some 100, Some 3] (1 / 100) (99 / 100)
     = Inr ([Some (53 / 50), None, Some 5, Some (1943 / 20), Some 3],
            \<lparr>low = Some (53 / 50), high = Some (1943 / 20)\<rparr>)"
  by code_simp



text \<open>
  C5. Clipping a numeric column to a bound pair and clipping the result again with the same
  bounds gives the same column as clipping once; in particular re-applying the recorded bounds
  of a winsorization to its output changes nothing.
\<close>

theorem winsorize_idempotent:
  "clip lo hi (clip lo hi xs) = clip lo hi xs
   \<and> (winsorize series lower upper = Inr (out, params)
        \<longrightarrow> clip (low params) (high params) out = out)"
proof -
  have "clip (low params) (high params) out = out"
    if "winsorize series lower upper = Inr (out, params)"
    using that clip_twice [of "quantile series lower" "quantile series upper" series]
    by (auto simp: winsorize_def Let_def split: if_splits)
  then show ?thesis using clip_twice by blast
qed

theorem winsorize_idempotent_witness:
  "clip (Some (53 / 50)) (Some (1943 / 20))
        [Some (53 / 50), None, Some 5, Some (1943 / 20), Some 3]
     = [Some (53 / 50), None, Some 5, Some (1943 / 20), Some 3]"
  using winsorize_idempotent [of "Some 0" "Some 0" "[]"
          "[Some 1, None, Some 5, Some 100, Some 3]" "1 / 100" "99 / 100"
          "[Some (53 / 50), None, Some 5, Some (1943 / 20), Some 3]"
          "\<lparr>low = Some (53 / 50), high = Some (1943 / 20)\<rparr>"]
        winsorize_example
  by simp

section \<open>Properties of the rare-category merger\<close>

lemma map_of_dict_set: "map_of (dict_set m k v) = (map_of m)(k \<mapsto> v)"
  by (induction m k v rule: dict_set.induct) auto

lemma dict_set_keys: "fst ` set (dict_set m k v) = insert k (fst ` set m)"
  by (induction m k v rule: dict_set.induct) auto







text \<open>
  The hypothesis is needed only for a direct call with a column that holds both the missing
  value and the literal string \<^verbatim>\<open><NA>\<close>: the two share the label \<^verbatim>\<open><NA>\<close> and one dictionary
  entry. The pipeline calls the merger after mode imputation, on columns without missing
  values.
\<close>

lemma merge_rare_levels_label_clash:
  "merge_rare_levels [Some ''<NA>'', Some ''<NA>'', Some ''<NA>'', None] (1 / 2)
     = ([''Other'', ''Other'', ''Other'', ''Other''], [(''<NA>'', ''Other'')])"
  by code_simp





section \<open>Properties of rate by category\<close>

lemma mset_filter_split: "mset (filter P xs) + mset (filter (\<lambda>i. \<not> P i) xs) = mset xs"
  by (induction xs) auto

lemma mset_argsort_desc: "mset (argsort_desc xs) = mset [0..<length xs]"
  using mset_filter_split [of "\<lambda>i. xs ! i \<noteq> None" "[0..<length xs]"]
  by (simp add: argsort_desc_def)

lemma length_argsort_desc: "length (argsort_desc xs) = length xs"
  using mset_eq_length [OF mset_argsort_desc [of xs]] by simp

lemma set_argsort_desc: "set (argsort_desc xs) = {0..<length xs}"
  using mset_eq_setD [OF mset_argsort_desc [of xs]] by simp

lemma sum_list_mset_cong:
  fixes f :: "nat \<Rightarrow> rat"
  assumes "mset xs = mset ys"
  shows "sum_list (map f xs) = sum_list (map f ys)"
proof -
  have "mset (map f xs) = mset (map f ys)" using assms by simp
  then have "sum_mset (mset (map f xs)) = sum_mset (mset (map f ys))" by (rule arg_cong)
  then show ?thesis by (simp only: sum_mset_sum_list)
qed

lemma sum_list_argsort_desc:
  assumes "length cs = length rs"
  shows "sum_list (map ((!) cs) (argsort_desc rs)) = (sum_list cs :: rat)"
proof -
  have "sum_list (map ((!) cs) (argsort_desc rs)) = sum_list (map ((!) cs) [0..<length cs])"
    using mset_argsort_desc [of rs] assms by (intro sum_list_mset_cong) simp
  also have "\<dots> = sum_list cs" by (simp add: map_nth)
  finally show ?thesis .
qed

lemma map_nth_Some:
  "set idx \<subseteq> {0..<length cs} \<Longrightarrow> map ((!) (map Some cs)) idx = map Some (map ((!) cs) idx)"
  by (induction idx) auto

lemma getitem_sort_values_desc:
  "getitem (sort_values_desc t by) c = map_option (take_idx (argsort_desc by)) (getitem t c)"
  by (induction t) (auto simp: getitem_def sort_values_desc_def)

lemma getitem_dict_set: "getitem (dict_set t c x) c = Some x"
  by (simp add: getitem_def map_of_dict_set)

lemma length_group_of:
  "length cs = length ts \<Longrightarrow> length (group_of cs ts k) = count_list cs k"
  by (induction cs ts rule: list_induct2) (auto simp: group_of_def)

lemma sum_count_list_distinct:
  "distinct ks \<Longrightarrow> set xs \<subseteq> set ks \<Longrightarrow> sum_list (map (count_list xs) ks) = length xs"
proof -
  assume d: "distinct ks" and s: "set xs \<subseteq> set ks"
  have "sum_list (map (count_list xs) ks) = sum (count_list xs) (set ks)"
    using d by (simp add: sum_list_distinct_conv_sum_set)
  also have "\<dots> = length xs" using s by (simp add: sum_count_set)
  finally show ?thesis .
qed

lemma distinct_group_keys: "wf_column g \<Longrightarrow> distinct (group_keys observed g)"
  by (cases g) (auto simp: distinct_map inj_on_def)

lemma Some_in_map_option:
  "Some v \<in> map_option f ` A \<longleftrightarrow> (\<exists>q. Some q \<in> A \<and> v = f q)"
proof
  assume "Some v \<in> map_option f ` A"
  then obtain x where x: "x \<in> A" "Some v = map_option f x" by blast
  then show "\<exists>q. Some q \<in> A \<and> v = f q" by (cases x) auto
next
  assume "\<exists>q. Some q \<in> A \<and> v = f q"
  then obtain q where "Some q \<in> A" "v = f q" by blast
  then show "Some v \<in> map_option f ` A" by (intro image_eqI [where x = "Some q"]) auto
qed

lemma None_in_map_option: "None \<in> map_option f ` A \<longleftrightarrow> None \<in> A"
proof
  assume "None \<in> map_option f ` A"
  then obtain x where x: "x \<in> A" "None = map_option f x" by blast
  then show "None \<in> A" by (cases x) auto
next
  assume "None \<in> A"
  then show "None \<in> map_option f ` A" by (intro image_eqI [where x = None]) auto
qed

lemma cells_group_keys: "wf_column g \<Longrightarrow> set (cells g) \<subseteq> set (group_keys observed g)"
proof (cases g)
  case (NumCol xs)
  have "c \<in> set (group_keys observed (NumCol xs))" if "c \<in> set (cells (NumCol xs))" for c
  proof (cases c)
    case None
    with that show ?thesis by (simp add: None_in_map_option)
  next
    case (Some v)
    with that obtain q where "Some q \<in> set xs" "v = VNum q" by (auto simp: Some_in_map_option)
    then show ?thesis using Some by (auto simp: dropna_set)
  qed
  with NumCol show ?thesis by blast
next
  case (ObjCol xs)
  have "c \<in> set (group_keys observed (ObjCol xs))" if "c \<in> set (cells (ObjCol xs))" for c
  proof (cases c)
    case None
    with that show ?thesis by (simp add: None_in_map_option)
  next
    case (Some v)
    with that obtain q where "Some q \<in> set xs" "v = VStr q" by (auto simp: Some_in_map_option)
    then show ?thesis using Some by (auto simp: dropna_set)
  qed
  with ObjCol show ?thesis by blast
next
  case (CatCol cats xs)
  assume wf: "wf_column g"
  have "c \<in> set (group_keys observed (CatCol cats xs))" if "c \<in> set (cells (CatCol cats xs))" for c
  proof (cases c)
    case None
    with that show ?thesis by (simp add: None_in_map_option)
  next
    case (Some v)
    with that obtain q where q: "Some q \<in> set xs" "v = VStr q" by (auto simp: Some_in_map_option)
    then have "q \<in> set cats" using wf CatCol by (auto simp: list_all_iff dropna_set)
    then show ?thesis using Some q by auto
  qed
  with CatCol show ?thesis by blast
qed

lemma length_cells: "length (cells g) = col_len g"
  by (cases g) auto

lemma length_key_column: "col_len (key_column observed g) = length (group_keys observed g)"
  by (cases g) auto

lemma col_len_take_idx: "col_len (take_idx idx c) = length idx"
  by (cases c) auto

lemma wf_frame_col_len:
  "wf_frame df \<Longrightarrow> getitem df c = Some g \<Longrightarrow> col_len g = nrows df \<and> wf_column g"
  by (auto simp: wf_frame_def getitem_def list_all_iff dest!: map_of_SomeD)

lemma getitem_in_columns: "getitem df c = Some g \<Longrightarrow> c \<in> set (columns df)"
  by (auto simp: getitem_def columns_def dest!: map_of_SomeD intro: rev_image_eqI)

lemma in_columns_getitem: "c \<in> set (columns df) \<Longrightarrow> \<exists>g. getitem df c = Some g"
  by (auto simp: getitem_def columns_def) (metis domD dom_map_of_conv_image_fst image_eqI fst_conv)

lemma sum_list_of_nat: "sum_list (map (\<lambda>k. of_nat (f k)) ks) = (of_nat (sum_list (map f ks)) :: rat)"
  by (induction ks) auto

lemma by_category_rate_Inr:
  assumes "TARGET \<in> set (columns df)" and "getitem df col = Some g"
      and "by_category_rate observed df col = Inr t"
  obtains ts where "getitem df TARGET = Some (NumCol ts)" and "col \<noteq> ''Default_%''"
    and "t = sort_values_desc
               (dict_set [(col, key_column observed g),
                          (''Default_%'', NumCol (map (\<lambda>k. map_option (\<lambda>m. m * 100)
                              (mean (group_of (cells g) ts k))) (group_keys observed g)))]
                  ''count''
                  (NumCol (map (\<lambda>k. Some (of_nat (length (group_of (cells g) ts k))))
                               (group_keys observed g))))
               (map (\<lambda>k. map_option (\<lambda>m. m * 100) (mean (group_of (cells g) ts k)))
                    (group_keys observed g))"
proof -
  have c: "col \<in> set (columns df)" using assms(2) by (rule getitem_in_columns)
  obtain tc where tc: "getitem df TARGET = Some tc"
    using in_columns_getitem [OF assms(1)] by blast
  show thesis
  proof (cases tc)
    case (NumCol ts)
    with assms c tc that show ?thesis
      by (auto simp: by_category_rate_def Let_def split: if_splits)
  next
    case (ObjCol xs)
    with assms c tc show ?thesis by (simp add: by_category_rate_def)
  next
    case (CatCol cats xs)
    with assms c tc show ?thesis by (simp add: by_category_rate_def)
  qed
qed

lemma by_category_rate_total:
  assumes "getitem df TARGET = Some (NumCol ts)" and "getitem df col = Some g"
      and "col \<noteq> ''Default_%''"
  shows "\<exists>t. by_category_rate observed df col = Inr t"
  using assms getitem_in_columns [OF assms(1)] getitem_in_columns [OF assms(2)]
  by (simp add: by_category_rate_def Let_def)

lemma by_category_rate_table:
  assumes wf: "wf_frame df" and tg: "TARGET \<in> set (columns df)"
      and g: "getitem df col = Some g"
      and r: "by_category_rate observed df col = Inr t"
  shows "nrows t = length (group_keys observed g)
       \<and> (\<exists>cs. getitem t ''count'' = Some (NumCol (map Some cs))
               \<and> sum_list cs = of_nat (nrows df))"
proof -
  from by_category_rate_Inr [OF tg g r] obtain ts where
    ts: "getitem df TARGET = Some (NumCol ts)" and ne: "col \<noteq> ''Default_%''"
    and t: "t = sort_values_desc
               (dict_set [(col, key_column observed g),
                          (''Default_%'', NumCol (map (\<lambda>k. map_option (\<lambda>m. m * 100)
                              (mean (group_of (cells g) ts k))) (group_keys observed g)))]
                  ''count''
                  (NumCol (map (\<lambda>k. Some (of_nat (length (group_of (cells g) ts k))))
                               (group_keys observed g))))
               (map (\<lambda>k. map_option (\<lambda>m. m * 100) (mean (group_of (cells g) ts k)))
                    (group_keys observed g))"
    by blast
  define keys where "keys = group_keys observed g"
  define rates where "rates = map (\<lambda>k. map_option (\<lambda>m. m * 100)
                              (mean (group_of (cells g) ts k))) keys"
  define sz :: "rat list" where "sz = map (\<lambda>k. of_nat (length (group_of (cells g) ts k))) keys"
  define perm where "perm = argsort_desc rates"
  have t': "t = sort_values_desc
                 (dict_set [(col, key_column observed g), (''Default_%'', NumCol rates)]
                    ''count'' (NumCol (map Some sz))) rates"
    unfolding t rates_def sz_def keys_def by (simp add: comp_def)
  have lr: "length rates = length keys" by (simp add: rates_def)
  have ls: "length sz = length rates" by (simp add: sz_def rates_def)
  have lp: "length perm = length keys" by (simp add: perm_def length_argsort_desc lr)
  have sp: "set perm \<subseteq> {0..<length sz}" by (simp add: perm_def set_argsort_desc ls)
  have gl: "col_len g = nrows df" and wg: "wf_column g"
    using wf_frame_col_len [OF wf g] by auto
  have tl: "length ts = nrows df" using wf_frame_col_len [OF wf ts] by simp
  have cl: "length (cells g) = length ts" by (simp add: length_cells gl tl)
  \<comment> \<open>the count column\<close>
  define t1 where "t1 = dict_set [(col, key_column observed g), (''Default_%'', NumCol rates)]
                          ''count'' (NumCol (map Some sz))"
  have t1c: "getitem t1 ''count'' = Some (NumCol (map Some sz))"
    unfolding t1_def by (rule getitem_dict_set)
  have t'': "t = sort_values_desc t1 rates" by (simp add: t' t1_def)
  have "getitem t ''count'' = Some (take_idx perm (NumCol (map Some sz)))"
    unfolding t'' by (simp add: getitem_sort_values_desc t1c perm_def)
  also have "\<dots> = Some (NumCol (map Some (map ((!) sz) perm)))"
    using map_nth_Some [OF sp] by simp
  finally have cnt: "getitem t ''count'' = Some (NumCol (map Some (map ((!) sz) perm)))" .
  have "sum_list (map ((!) sz) perm) = sum_list sz"
    unfolding perm_def by (rule sum_list_argsort_desc [OF ls])
  also have "\<dots> = of_nat (sum_list (map (count_list (cells g)) keys))"
    unfolding sz_def by (simp add: length_group_of [OF cl] sum_list_of_nat)
  also have "sum_list (map (count_list (cells g)) keys) = length (cells g)"
    unfolding keys_def
    by (rule sum_count_list_distinct [OF distinct_group_keys [OF wg] cells_group_keys [OF wg]])
  finally have total: "sum_list (map ((!) sz) perm) = of_nat (nrows df)"
    by (simp add: length_cells gl)
  \<comment> \<open>the number of rows\<close>
  have "nrows t = length perm"
    unfolding t' by (cases "col = ''count''")
      (simp_all add: sort_values_desc_def nrows_def col_len_take_idx perm_def)
  then have "nrows t = length (group_keys observed g)" by (simp add: lp keys_def)
  with cnt total show ?thesis by blast
qed

lemma example_frame_wf: "wf_frame example_frame"
  by code_simp

lemma example_frame_rate:
  "by_category_rate True example_frame ''CODE_GENDER''
     = Inr [(''CODE_GENDER'', ObjCol [Some ''F'', Some ''M'']),
            (''Default_%'', NumCol [Some 50, Some (100 / 3)]),
            (''count'', NumCol [Some 2, Some 3])]"
  by code_simp

text \<open>
  C7. For a dataframe that has the outcome column and the grouping column, the rate table has
  one row per group, every observed value of the grouping column (the missing value included)
  having exactly one group, and its \<^verbatim>\<open>count\<close> column sums to the number of rows of the
  dataframe. The table exists whenever the outcome column is numeric and the grouping column
  is not itself called \<^verbatim>\<open>Default_%\<close>.
\<close>

theorem by_category_rate_counts:
  assumes "wf_frame df" and "TARGET \<in> set (columns df)" and "getitem df col = Some g"
  shows "(\<forall>ts. getitem df TARGET = Some (NumCol ts) \<and> col \<noteq> ''Default_%''
            \<longrightarrow> (\<exists>t. by_category_rate observed df col = Inr t))
       \<and> (\<forall>t. by_category_rate observed df col = Inr t
            \<longrightarrow> nrows t = length (group_keys observed g)
                \<and> distinct (group_keys observed g)
                \<and> set (cells g) \<subseteq> set (group_keys observed g)
                \<and> (\<exists>cs. getitem t ''count'' = Some (NumCol (map Some cs))
                        \<and> sum_list cs = of_nat (nrows df)))"
proof -
  have wg: "wf_column g" using wf_frame_col_len [OF assms(1) assms(3)] by simp
  have a: "\<forall>ts. getitem df TARGET = Some (NumCol ts) \<and> col \<noteq> ''Default_%''
            \<longrightarrow> (\<exists>t. by_category_rate observed df col = Inr t)"
    using by_category_rate_total [OF _ assms(3)] by blast
  have b: "nrows t = length (group_keys observed g)
           \<and> (\<exists>cs. getitem t ''count'' = Some (NumCol (map Some cs))
                   \<and> sum_list cs = of_nat (nrows df))"
    if "by_category_rate observed df col = Inr t" for t
    using by_category_rate_table [OF assms that] .
  from a b distinct_group_keys [OF wg, of observed] cells_group_keys [OF wg, of observed]
  show ?thesis by blast
qed

theorem by_category_rate_counts_witness:
  "wf_frame example_frame
   \<and> by_category_rate True example_frame ''CODE_GENDER''
       = Inr [(''CODE_GENDER'', ObjCol [Some ''F'', Some ''M'']),
              (''Default_%'', NumCol [Some 50, Some (100 / 3)]),
              (''count'', NumCol [Some 2, Some 3])]
   \<and> nrows [(''CODE_GENDER'', ObjCol [Some ''F'', Some ''M'']),
             (''Default_%'', NumCol [Some 50, Some (100 / 3)]),
             (''count'', NumCol [Some 2, Some 3])]
       = length (group_keys True (ObjCol [Some ''M'', Some ''F'', Some ''M'', Some ''F'', Some ''M'']))
   \<and> (\<exists>cs. getitem [(''CODE_GENDER'', ObjCol [Some ''F'', Some ''M'']),
                       (''Default_%'', NumCol [Some 50, Some (100 / 3)]),
                       (''count'', NumCol [Some 2, Some 3])] ''count''
                = Some (NumCol (map Some cs))
            \<and> sum_list cs = of_nat (nrows example_frame))"
proof -
  have tg: "TARGET \<in> set (columns example_frame)" by code_simp
  have g: "getitem example_frame ''CODE_GENDER''
             = Some (ObjCol [Some ''M'', Some ''F'', Some ''M'', Some ''F'', Some ''M''])"
    by code_simp
  from by_category_rate_counts [OF example_frame_wf tg g, of True]
       example_frame_wf example_frame_rate
  show ?thesis by simp
qed

text \<open>
  C9. When the outcome column or the grouping column is absent, rate by category raises
  nothing and returns the empty table with the three expected column headers.
\<close>

theorem by_category_rate_absent:
  assumes "TARGET \<notin> set (columns df) \<or> col \<notin> set (columns df)"
  shows "\<exists>t. by_category_rate observed df col = Inr t
             \<and> columns t = [col, ''Default_%'', ''count'']
             \<and> nrows t = 0
             \<and> list_all (\<lambda>(k, c). col_len c = 0) t"
  using assms by (auto simp: by_category_rate_def columns_def nrows_def)

theorem by_category_rate_absent_witness:
  "by_category_rate True example_frame ''OCCUPATION_TYPE''
     = Inr [(''OCCUPATION_TYPE'', ObjCol []), (''Default_%'', ObjCol []), (''count'', ObjCol [])]"
proof -
  have "TARGET \<notin> set (columns example_frame) \<or> ''OCCUPATION_TYPE'' \<notin> set (columns example_frame)"
    by code_simp
  from by_category_rate_absent [OF this, of True]
  show ?thesis by (auto simp: by_category_rate_def columns_def example_frame_def TARGET_def)
qed

section \<open>Properties of the correlation helper\<close>

lemma keep_cols_numeric:
  assumes "c \<in> set (keep_cols fsum df)"
  shows "\<exists>xs. getitem df c = Some (NumCol xs) \<and> 2 < length (dropna xs)
              \<and> std_positive fsum (dropna xs)"
proof -
  from assms have nc: "c \<in> set (num_cols_of df)"
    and q: "2 < length (dropna (numeric_cells df c))"
           "std_positive fsum (dropna (numeric_cells df c))"
    by (auto simp: keep_cols_def Let_def)
  from nc obtain col where col: "getitem df c = Some col" "is_numeric_dtype col"
    by (auto simp: num_cols_of_def split: option.splits)
  then obtain xs where xs: "col = NumCol xs" by (cases col) auto
  with col have "numeric_cells df c = xs" by (simp add: numeric_cells_def)
  with q col xs show ?thesis by auto
qed

lemma compute_corr_labels:
  "compute_corr coef fsum df method = Inr (corr, tgt) \<Longrightarrow> labels corr = keep_cols fsum df"
  by (auto simp: compute_corr_def Let_def empty_matrix_def split: if_splits)

text \<open>
  What holds of the code: a column among the labels of the matrix is numeric and has more
  than two non-missing values whose computed standard deviation is positive; when no column
  is kept, the matrix and the outcome vector are empty.
\<close>

lemma compute_corr_kept:
  assumes "compute_corr coef fsum df method = Inr (corr, tgt)" and "c \<in> set (labels corr)"
  shows "\<exists>xs. getitem df c = Some (NumCol xs) \<and> 2 < length (dropna xs)
              \<and> std_positive fsum (dropna xs)"
  using assms keep_cols_numeric [of c fsum df] by (simp add: compute_corr_labels)

lemma compute_corr_empty:
  "keep_cols fsum df = [] \<Longrightarrow> compute_corr coef fsum df method = Inr (empty_matrix, [])"
  by (simp add: compute_corr_def Let_def)

text \<open>
  A column of three fives is dropped: every float64 step is exact and the computed variance
  is 0.
\<close>

lemma std_positive_fives: "\<not> std_positive sum_in_order [5, 5, 5]"
proof -
  have a: "float64_of 5 = Fin 5"
    by (subst float64_of_value [where e = 2 and u = "- 50" and n = "5 * 2 ^ 50"]) simp_all
  have b: "fadd (Fin 5) (Fin 5) = Fin 10"
    unfolding fadd.simps
    by (subst float64_of_value [where e = 3 and u = "- 49" and n = "10 * 2 ^ 49"]) simp_all
  have c: "fadd (Fin 10) (Fin 5) = Fin 15"
    unfolding fadd.simps
    by (subst float64_of_value [where e = 3 and u = "- 49" and n = "15 * 2 ^ 49"]) simp_all
  have d: "fdiv (Fin 15) (Fin 3) = Fin 5"
    unfolding fdiv.simps using a by simp
  have e: "fsub (Fin 5) (Fin 5) = Fin 0" by (simp add: fsub_def)
  have f: "fmul (Fin 0) (Fin 0) = Fin 0" "fadd (Fin 0) (Fin 0) = Fin 0"
          "fdiv (Fin 0) (Fin 2) = Fin 0" "fadd (Fin 0) (Fin 5) = Fin 5"
    using a by simp_all
  have "nanvar sum_in_order [5, 5, 5] = Fin 0"
    unfolding nanvar_def Let_def sum_in_order_def
    by (simp add: a b c d e f del: fadd.simps fdiv.simps fmul.simps)
  then show ?thesis by (simp add: std_positive_def)
qed

text \<open>The float64 steps of the variance of 0.1, 0.1, 0.1.\<close>

lemma tenth_steps:
  "float64_of (3602879701896397 / 36028797018963968) = Fin (3602879701896397 / 36028797018963968)"
  "fadd (Fin (3602879701896397 / 36028797018963968)) (Fin (3602879701896397 / 36028797018963968))
     = Fin (3602879701896397 / 18014398509481984)"
  "fadd (Fin (3602879701896397 / 18014398509481984)) (Fin (3602879701896397 / 36028797018963968))
     = Fin (1351079888211149 / 4503599627370496)"
  "fdiv (Fin (1351079888211149 / 4503599627370496)) (Fin 3)
     = Fin (7205759403792795 / 72057594037927936)"
  "fsub (Fin (7205759403792795 / 72057594037927936)) (Fin (3602879701896397 / 36028797018963968))
     = Fin (1 / 72057594037927936)"
  "fmul (Fin (1 / 72057594037927936)) (Fin (1 / 72057594037927936))
     = Fin (1 / 5192296858534827628530496329220096)"
  "fadd (Fin (1 / 5192296858534827628530496329220096))
        (Fin (1 / 5192296858534827628530496329220096))
     = Fin (1 / 2596148429267413814265248164610048)"
  "fadd (Fin (1 / 2596148429267413814265248164610048))
        (Fin (1 / 5192296858534827628530496329220096))
     = Fin (3 / 5192296858534827628530496329220096)"
  "fdiv (Fin (3 / 5192296858534827628530496329220096)) (Fin 2)
     = Fin (3 / 10384593717069655257060992658440192)"
proof -
  show "float64_of (3602879701896397 / 36028797018963968)
          = Fin (3602879701896397 / 36028797018963968)"
    by (subst float64_of_value [where e = "- 4" and u = "- 56" and n = 7205759403792794])
       simp_all
  show "fadd (Fin (3602879701896397 / 36028797018963968))
             (Fin (3602879701896397 / 36028797018963968))
          = Fin (3602879701896397 / 18014398509481984)"
    unfolding fadd.simps
    by (subst float64_of_value [where e = "- 3" and u = "- 55" and n = 7205759403792794])
       simp_all
  show "fadd (Fin (3602879701896397 / 18014398509481984))
             (Fin (3602879701896397 / 36028797018963968))
          = Fin (1351079888211149 / 4503599627370496)"
    unfolding fadd.simps
    by (subst float64_of_tie [where e = "- 2" and u = "- 54" and m = 5404319552844595
                                and n = 5404319552844596])
       simp_all
  show "fdiv (Fin (1351079888211149 / 4503599627370496)) (Fin 3)
          = Fin (7205759403792795 / 72057594037927936)"
    unfolding fdiv.simps
    by (subst float64_of_value [where e = "- 4" and u = "- 56" and n = 7205759403792795])
       simp_all
  show "fsub (Fin (7205759403792795 / 72057594037927936))
             (Fin (3602879701896397 / 36028797018963968))
          = Fin (1 / 72057594037927936)"
    unfolding fsub_def fneg.simps fadd.simps
    by (subst float64_of_value [where e = "- 56" and u = "- 108" and n = 4503599627370496])
       simp_all
  show "fmul (Fin (1 / 72057594037927936)) (Fin (1 / 72057594037927936))
          = Fin (1 / 5192296858534827628530496329220096)"
    unfolding fmul.simps
    by (subst float64_of_value [where e = "- 112" and u = "- 164" and n = 4503599627370496])
       simp_all
  show "fadd (Fin (1 / 5192296858534827628530496329220096))
             (Fin (1 / 5192296858534827628530496329220096))
          = Fin (1 / 2596148429267413814265248164610048)"
    unfolding fadd.simps
    by (subst float64_of_value [where e = "- 111" and u = "- 163" and n = 4503599627370496])
       simp_all
  show "fadd (Fin (1 / 2596148429267413814265248164610048))
             (Fin (1 / 5192296858534827628530496329220096))
          = Fin (3 / 5192296858534827628530496329220096)"
    unfolding fadd.simps
    by (subst float64_of_value [where e = "- 111" and u = "- 163" and n = 6755399441055744])
       simp_all
  show "fdiv (Fin (3 / 5192296858534827628530496329220096)) (Fin 2)
          = Fin (3 / 10384593717069655257060992658440192)"
    unfolding fdiv.simps
    by (subst float64_of_value [where e = "- 112" and u = "- 164" and n = 6755399441055744])
       simp_all
qed


lemma nanvar_tenth:
  "nanvar sum_in_order [3602879701896397 / 36028797018963968,
                        3602879701896397 / 36028797018963968,
                        3602879701896397 / 36028797018963968]
     = Fin (3 / 10384593717069655257060992658440192)"
proof -
  have z: "fadd (Fin 0) (Fin (3602879701896397 / 36028797018963968))
             = Fin (3602879701896397 / 36028797018963968)"
          "fadd (Fin 0) (Fin (1 / 5192296858534827628530496329220096))
             = Fin (1 / 5192296858534827628530496329220096)"
    using tenth_steps(1,6) by simp_all
  show ?thesis
    unfolding nanvar_def Let_def sum_in_order_def
    by (simp add: tenth_steps z del: fadd.simps fdiv.simps fmul.simps)
qed

lemma std_positive_tenth:
  "std_positive sum_in_order [3602879701896397 / 36028797018963968,
                              3602879701896397 / 36028797018963968,
                              3602879701896397 / 36028797018963968]"
  by (simp add: std_positive_def nanvar_tenth)

text \<open>
  C6. The constant column 0.1, 0.1, 0.1: the float64 sum of the three values is
  0.30000000000000004, their mean 0.10000000000000002, not 0.1; the computed variance is
  about 2.9e-34, the standard deviation 1.7e-17, positive. The column is kept: it is the one
  label of the correlation matrix, although its three values are the same.
\<close>

theorem compute_corr_keeps_constant:
  "compute_corr coef sum_in_order example_rate ''spearman''
     = Inr (\<lparr>labels = [''RATE''],
             entries = [[coef ''spearman''
                           [Some (3602879701896397 / 36028797018963968),
                            Some (3602879701896397 / 36028797018963968),
                            Some (3602879701896397 / 36028797018963968)]
                           [Some (3602879701896397 / 36028797018963968),
                            Some (3602879701896397 / 36028797018963968),
                            Some (3602879701896397 / 36028797018963968)]]]\<rparr>, [])
   \<and> set (dropna (numeric_cells example_rate ''RATE''))
       = {3602879701896397 / 36028797018963968}"
proof -
  have c: "numeric_cells example_rate ''RATE''
             = [Some (3602879701896397 / 36028797018963968),
                Some (3602879701896397 / 36028797018963968),
                Some (3602879701896397 / 36028797018963968)]"
    by (simp add: numeric_cells_def example_rate_def getitem_def)
  have d: "dropna (numeric_cells example_rate ''RATE'')
             = [3602879701896397 / 36028797018963968,
                3602879701896397 / 36028797018963968,
                3602879701896397 / 36028797018963968]"
    unfolding c by (simp add: dropna_def List.map_filter_simps)
  have n: "num_cols_of example_rate = [''RATE'']"
    by (simp add: num_cols_of_def example_rate_def columns_def getitem_def)
  have k: "keep_cols sum_in_order example_rate = [''RATE'']"
    unfolding keep_cols_def n by (simp add: Let_def d std_positive_tenth)
  have "compute_corr coef sum_in_order example_rate ''spearman''
     = Inr (\<lparr>labels = [''RATE''],
             entries = [[coef ''spearman'' (numeric_cells example_rate ''RATE'')
                                          (numeric_cells example_rate ''RATE'')]]\<rparr>, [])"
    unfolding compute_corr_def k by (simp add: Let_def TARGET_def)
  then show ?thesis unfolding d unfolding c by simp
qed


section \<open>Properties of the filter engine\<close>

























section \<open>The identifier and the outcome through the pipeline\<close>

lemma getitem_dict_set_other: "c' \<noteq> c \<Longrightarrow> getitem (dict_set df c x) c' = getitem df c'"
  by (simp add: getitem_def map_of_dict_set)

lemma getitem_map_column_other: "c' \<noteq> c \<Longrightarrow> getitem (map_column g df c) c' = getitem df c'"
  by (simp add: map_column_def getitem_dict_set_other split: option.splits)

lemma getitem_map_column_same:
  "getitem (map_column g df c) c = map_option g (getitem df c)"
  by (simp add: map_column_def getitem_dict_set split: option.splits)

lemma getitem_fold_map_column:
  "c' \<notin> set cs \<Longrightarrow> getitem (fold (\<lambda>c d. map_column g d c) cs df) c' = getitem df c'"
  by (induction cs arbitrary: df) (auto simp: getitem_map_column_other)

lemma getitem_drop_columns: "c' \<notin> set cs \<Longrightarrow> getitem (drop_columns cs df) c' = getitem df c'"
  by (induction df) (auto simp: drop_columns_def getitem_def)

lemma getitem_None_iff: "getitem df c = None \<longleftrightarrow> c \<notin> set (columns df)"
  by (simp add: getitem_def columns_def map_of_eq_None_iff)

text \<open>The identifier and the outcome are in none of the column lists the steps run over.\<close>

lemma not_protected_lists:
  assumes "protected c"
  shows "c \<notin> set (obj_cols d)" "c \<notin> set (num_cols d)" "c \<notin> set (cat_cols d)"
        "c \<notin> set (winsor_fields d)" "c \<notin> set (drop_cols_of tbl)"
  using assms
  by (auto simp: protected_def obj_cols_def num_cols_def cat_cols_def winsor_fields_def
                 drop_cols_of_def ID_COLS_def TARGET_def)

lemma protected_cases: "protected c \<longleftrightarrow> c = ''SK_ID_CURR'' \<or> c = ''TARGET''"
  by (auto simp: protected_def ID_COLS_def TARGET_def)

text \<open>Step by step: what each step leaves of a column it does not run over.\<close>

lemma getitem_ids_as_strings:
  "getitem (ids_as_strings lib df) c
     = (if c = ''SK_ID_CURR'' then map_option (astype_str lib) (getitem df c) else getitem df c)"
  by (simp add: ids_as_strings_def ID_COLS_def getitem_map_column_same getitem_map_column_other)

lemma getitem_cast_objects: "protected c \<Longrightarrow> getitem (cast_objects df) c = getitem df c"
  unfolding cast_objects_def by (rule getitem_fold_map_column) (rule not_protected_lists)

lemma getitem_derive_age:
  "protected c \<Longrightarrow> derive_age df = Inr df' \<Longrightarrow> getitem df' c = getitem df c"
  by (auto simp: derive_age_def protected_cases getitem_dict_set_other
           split: option.splits sum.splits)

lemma getitem_derive_employment:
  "protected c \<Longrightarrow> derive_employment df = Inr df' \<Longrightarrow> getitem df' c = getitem df c"
  by (auto simp: derive_employment_def Let_def protected_cases getitem_dict_set_other
           split: option.splits sum.splits)

lemma getitem_derive_ratio:
  "c \<noteq> name \<Longrightarrow> derive_ratio name a b df = Inr df' \<Longrightarrow> getitem df' c = getitem df c"
  by (auto simp: derive_ratio_def getitem_dict_set_other split: option.splits sum.splits)

lemma getitem_derive_features:
  assumes "protected c" and "derive_features df = Inr df'"
  shows "getitem df' c = getitem df c"
proof -
  from assms(2) obtain d1 d2 d3 d4 where
    s: "derive_age df = Inr d1" "derive_employment d1 = Inr d2"
       "derive_ratio ''DTI'' ''AMT_ANNUITY'' ''AMT_INCOME_TOTAL'' d2 = Inr d3"
       "derive_ratio ''LTI'' ''AMT_CREDIT'' ''AMT_INCOME_TOTAL'' d3 = Inr d4"
       "derive_ratio ''ANNUITY_TO_CREDIT'' ''AMT_ANNUITY'' ''AMT_CREDIT'' d4 = Inr df'"
    by (auto simp: derive_features_def split: sum.splits)
  have n: "c \<noteq> ''DTI''" "c \<noteq> ''LTI''" "c \<noteq> ''ANNUITY_TO_CREDIT''"
    using assms(1) by (auto simp: protected_cases)
  show ?thesis
    using getitem_derive_age [OF assms(1) s(1)] getitem_derive_employment [OF assms(1) s(2)]
          getitem_derive_ratio [OF n(1) s(3)] getitem_derive_ratio [OF n(2) s(4)]
          getitem_derive_ratio [OF n(3) s(5)]
    by simp
qed

lemma getitem_impute_numeric: "protected c \<Longrightarrow> getitem (impute_numeric df) c = getitem df c"
  unfolding impute_numeric_def by (rule getitem_fold_map_column) (rule not_protected_lists)

lemma getitem_impute_categorical:
  "c \<notin> set cs \<Longrightarrow> impute_categorical cs df = Inr df' \<Longrightarrow> getitem df' c = getitem df c"
proof (induction cs arbitrary: df)
  case Nil
  then show ?case by simp
next
  case (Cons a cs)
  then show ?case
    by (auto simp: getitem_dict_set_other split: option.splits sum.splits)
qed

lemma getitem_merge_rare:
  "c \<notin> set cs \<Longrightarrow> merge_rare lib cs (df, maps) = (df', maps') \<Longrightarrow> getitem df' c = getitem df c"
proof (induction cs arbitrary: df maps)
  case Nil
  then show ?case by simp
next
  case (Cons a cs)
  then show ?case
    by (auto simp: getitem_dict_set_other split: option.splits prod.splits)
qed

lemma getitem_winsorize_fields:
  "c \<notin> set cs \<Longrightarrow> winsorize_fields lib cs (df, ps) = Inr (df', ps')
     \<Longrightarrow> getitem df' c = getitem df c"
proof (induction cs arbitrary: df ps)
  case Nil
  then show ?case by simp
next
  case (Cons a cs)
  then show ?case
    by (auto simp: getitem_dict_set_other split: option.splits sum.splits prod.splits)
qed

lemma getitem_income_brackets:
  "protected c \<Longrightarrow> income_brackets df = Inr df' \<Longrightarrow> getitem df' c = getitem df c"
  by (auto simp: income_brackets_def Let_def protected_cases getitem_dict_set_other
           split: option.splits column.splits)

text \<open>The pipeline with its local names written out, and a successful run taken apart.\<close>

lemma preprocess_frame_unfold:
  "preprocess_frame lib df0 =
     (case derive_features (cast_objects (ids_as_strings lib df0)) of
        Inl e \<Rightarrow> Inl e
      | Inr d1 \<Rightarrow>
         (case impute_categorical
                (cat_cols (drop_columns (drop_cols_of (summarize_missingness d1)) d1))
                (impute_numeric (drop_columns (drop_cols_of (summarize_missingness d1)) d1)) of
            Inl e \<Rightarrow> Inl e
          | Inr d4 \<Rightarrow>
            (case merge_rare lib
                    (cat_cols (drop_columns (drop_cols_of (summarize_missingness d1)) d1))
                    (d4, []) of
               (d5, maps) \<Rightarrow>
                 (case winsorize_fields lib (winsor_fields d5) (d5, []) of
                    Inl e \<Rightarrow> Inl e
                  | Inr (d6, wp) \<Rightarrow>
                      (case income_brackets d6 of
                         Inl e \<Rightarrow> Inl e
                       | Inr df \<Rightarrow>
                           Inr (df, \<lparr>dropped_cols = drop_cols_of (summarize_missingness d1),
                                     winsor_params = wp,
                                     missingness_before = summarize_missingness d1,
                                     missingness_after = summarize_missingness df,
                                     rare_maps = maps,
                                     art_notes = pipeline_notes\<rparr>))))))"
  unfolding preprocess_frame_def Let_def ..

lemma preprocess_frame_steps:
  assumes "preprocess_frame lib df0 = Inr (clean, art)"
  obtains d1 d4 d5 d6 maps wp where
    "derive_features (cast_objects (ids_as_strings lib df0)) = Inr d1"
    "impute_categorical
       (cat_cols (drop_columns (drop_cols_of (summarize_missingness d1)) d1))
       (impute_numeric (drop_columns (drop_cols_of (summarize_missingness d1)) d1)) = Inr d4"
    "merge_rare lib (cat_cols (drop_columns (drop_cols_of (summarize_missingness d1)) d1)) (d4, [])
       = (d5, maps)"
    "winsorize_fields lib (winsor_fields d5) (d5, []) = Inr (d6, wp)"
    "income_brackets d6 = Inr clean"
    "dropped_cols art = drop_cols_of (summarize_missingness d1)"
  using assms unfolding preprocess_frame_unfold
  by (auto split: sum.splits prod.splits)

lemma preprocess_frame_protected:
  assumes r: "preprocess_frame lib df0 = Inr (clean, art)" and p: "protected c"
  shows "getitem clean c
     = (if c = ''SK_ID_CURR'' then map_option (astype_str lib) (getitem df0 c)
        else getitem df0 c)"
  using r
proof (rule preprocess_frame_steps)
  fix d1 d4 d5 d6 maps wp
  assume s1: "derive_features (cast_objects (ids_as_strings lib df0)) = Inr d1"
    and s4: "impute_categorical
       (cat_cols (drop_columns (drop_cols_of (summarize_missingness d1)) d1))
       (impute_numeric (drop_columns (drop_cols_of (summarize_missingness d1)) d1)) = Inr d4"
    and s5: "merge_rare lib (cat_cols (drop_columns (drop_cols_of (summarize_missingness d1)) d1)) (d4, [])
       = (d5, maps)"
    and s6: "winsorize_fields lib (winsor_fields d5) (d5, []) = Inr (d6, wp)"
    and s7: "income_brackets d6 = Inr clean"
  have n3: "c \<notin> set (cat_cols (drop_columns (drop_cols_of (summarize_missingness d1)) d1))"
    using p by (rule not_protected_lists(3))
  have n4: "c \<notin> set (winsor_fields d5)" using p by (rule not_protected_lists(4))
  have n5: "c \<notin> set (drop_cols_of (summarize_missingness d1))"
    using p by (rule not_protected_lists(5))
  have "getitem clean c = getitem d6 c" by (rule getitem_income_brackets [OF p s7])
  also have "\<dots> = getitem d5 c" by (rule getitem_winsorize_fields [OF n4 s6])
  also have "\<dots> = getitem d4 c" by (rule getitem_merge_rare [OF n3 s5])
  also have "\<dots>
      = getitem (impute_numeric (drop_columns (drop_cols_of (summarize_missingness d1)) d1)) c"
    by (rule getitem_impute_categorical [OF n3 s4])
  also have "\<dots> = getitem (drop_columns (drop_cols_of (summarize_missingness d1)) d1) c"
    by (rule getitem_impute_numeric [OF p])
  also have "\<dots> = getitem d1 c" by (rule getitem_drop_columns [OF n5])
  also have "\<dots> = getitem (cast_objects (ids_as_strings lib df0)) c"
    by (rule getitem_derive_features [OF p s1])
  also have "\<dots> = getitem (ids_as_strings lib df0) c" by (rule getitem_cast_objects [OF p])
  finally have e: "getitem clean c = getitem (ids_as_strings lib df0) c" .
  show ?thesis unfolding e by (rule getitem_ids_as_strings)
qed

lemma preprocess_frame_dropped:
  assumes "preprocess_frame lib df0 = Inr (clean, art)" and "protected c"
  shows "c \<notin> set (dropped_cols art)"
  using assms(1)
proof (rule preprocess_frame_steps)
  fix d1
  assume "dropped_cols art = drop_cols_of (summarize_missingness d1)"
  with not_protected_lists(5) [OF assms(2)] show ?thesis by simp
qed

lemma example_raw_preprocessed:
  "preprocess_frame example_lib example_raw = Inr (example_clean, example_artifacts)"
  by code_simp

text \<open>
  C8. Whenever the pipeline returns a cleaned dataset: its outcome column is the outcome
  column of the input, cell for cell; its identifier column is the identifier column of the
  input printed as strings (the one step applied to it); each of the two is present in the
  cleaned dataset if (and only if) it was present in the input, and neither is in the list of
  dropped columns. Neither name is in the column lists that categorical casting, median
  imputation, mode imputation, rare-label merging and winsorization run over, whatever the
  working dataset, and each of these steps leaves both columns as they are.
\<close>

theorem preprocess_frame_keeps_id_and_target:
  assumes "preprocess_frame lib df = Inr (clean, art)"
  shows "getitem clean TARGET = getitem df TARGET
       \<and> getitem clean ''SK_ID_CURR'' = map_option (astype_str lib) (getitem df ''SK_ID_CURR'')
       \<and> (\<forall>c. protected c \<longrightarrow>
              (c \<in> set (columns clean) \<longleftrightarrow> c \<in> set (columns df))
            \<and> c \<notin> set (dropped_cols art))
       \<and> (\<forall>c d. protected c \<longrightarrow>
              c \<notin> set (obj_cols d) \<and> c \<notin> set (num_cols d) \<and> c \<notin> set (cat_cols d)
            \<and> c \<notin> set (winsor_fields d))
       \<and> (\<forall>c d. protected c \<longrightarrow>
              getitem (cast_objects d) c = getitem d c
            \<and> getitem (impute_numeric d) c = getitem d c
            \<and> (\<forall>w d'. impute_categorical (cat_cols w) d = Inr d' \<longrightarrow> getitem d' c = getitem d c)
            \<and> (\<forall>w m d' m'. merge_rare lib (cat_cols w) (d, m) = (d', m')
                   \<longrightarrow> getitem d' c = getitem d c)
            \<and> (\<forall>w ps d' ps'. winsorize_fields lib (winsor_fields w) (d, ps) = Inr (d', ps')
                   \<longrightarrow> getitem d' c = getitem d c))"
proof -
  have t: "protected TARGET" and i: "protected ''SK_ID_CURR''"
    by (simp_all add: protected_def ID_COLS_def)
  have a: "getitem clean TARGET = getitem df TARGET"
    using preprocess_frame_protected [OF assms t] by (simp add: TARGET_def)
  have b: "getitem clean ''SK_ID_CURR''
             = map_option (astype_str lib) (getitem df ''SK_ID_CURR'')"
    using preprocess_frame_protected [OF assms i] by simp
  have c: "(c \<in> set (columns clean) \<longleftrightarrow> c \<in> set (columns df)) \<and> c \<notin> set (dropped_cols art)"
    if p: "protected c" for c
  proof -
    have "getitem clean c = None \<longleftrightarrow> getitem df c = None"
      using preprocess_frame_protected [OF assms p] by (simp split: if_splits)
    then have "c \<in> set (columns clean) \<longleftrightarrow> c \<in> set (columns df)"
      by (simp add: getitem_None_iff)
    with preprocess_frame_dropped [OF assms p] show ?thesis by simp
  qed
  have d: "c \<notin> set (obj_cols d) \<and> c \<notin> set (num_cols d) \<and> c \<notin> set (cat_cols d)
            \<and> c \<notin> set (winsor_fields d)"
    if p: "protected c" for c d
    using not_protected_lists [OF p] by simp
  have e: "getitem (cast_objects d) c = getitem d c
            \<and> getitem (impute_numeric d) c = getitem d c
            \<and> (\<forall>w d'. impute_categorical (cat_cols w) d = Inr d' \<longrightarrow> getitem d' c = getitem d c)
            \<and> (\<forall>w m d' m'. merge_rare lib (cat_cols w) (d, m) = (d', m')
                   \<longrightarrow> getitem d' c = getitem d c)
            \<and> (\<forall>w ps d' ps'. winsorize_fields lib (winsor_fields w) (d, ps) = Inr (d', ps')
                   \<longrightarrow> getitem d' c = getitem d c)"
    if p: "protected c" for c d
  proof -
    have e3: "getitem d' c = getitem d c" if "impute_categorical (cat_cols w) d = Inr d'" for w d'
      using that getitem_impute_categorical not_protected_lists(3) [OF p] by blast
    have e4: "getitem d' c = getitem d c" if "merge_rare lib (cat_cols w) (d, m) = (d', m')"
      for w m d' m'
      using that getitem_merge_rare not_protected_lists(3) [OF p] by blast
    have e5: "getitem d' c = getitem d c"
      if "winsorize_fields lib (winsor_fields w) (d, ps) = Inr (d', ps')" for w ps d' ps'
      using that getitem_winsorize_fields not_protected_lists(4) [OF p] by blast
    from getitem_cast_objects [OF p] getitem_impute_numeric [OF p] e3 e4 e5
    show ?thesis by blast
  qed
  from a b c d e show ?thesis by blast
qed

theorem preprocess_frame_keeps_id_and_target_witness:
  "preprocess_frame example_lib example_raw = Inr (example_clean, example_artifacts)
   \<and> getitem example_clean TARGET = Some (NumCol [Some 1, Some 0, Some 1])
   \<and> getitem example_raw TARGET = Some (NumCol [Some 1, Some 0, Some 1])
   \<and> getitem example_clean ''SK_ID_CURR''
        = Some (ObjCol [Some ''100001'', Some ''100002'', Some ''100003''])
   \<and> protected TARGET \<and> protected ''SK_ID_CURR''
   \<and> TARGET \<in> set (columns example_clean) \<and> ''SK_ID_CURR'' \<in> set (columns example_clean)
   \<and> TARGET \<notin> set (cat_cols example_raw) \<and> ''SK_ID_CURR'' \<notin> set (num_cols example_raw)"
proof -
  have r: "preprocess_frame example_lib example_raw = Inr (example_clean, example_artifacts)"
    by code_simp
  have t: "protected TARGET" and i: "protected ''SK_ID_CURR''"
    by (simp_all add: protected_def ID_COLS_def)
  have x: "getitem example_raw TARGET = Some (NumCol [Some 1, Some 0, Some 1])"
    by code_simp
  have y: "map_option (astype_str example_lib) (getitem example_raw ''SK_ID_CURR'')
             = Some (ObjCol [Some ''100001'', Some ''100002'', Some ''100003''])"
    by code_simp
  have z: "TARGET \<in> set (columns example_raw)" "''SK_ID_CURR'' \<in> set (columns example_raw)"
    by (simp_all add: example_raw_def columns_def TARGET_def)
  note k = preprocess_frame_keeps_id_and_target [OF r]
  from k x have k1: "getitem example_clean TARGET = Some (NumCol [Some 1, Some 0, Some 1])"
    by simp
  from k y have k2: "getitem example_clean ''SK_ID_CURR''
        = Some (ObjCol [Some ''100001'', Some ''100002'', Some ''100003''])"
    by simp
  from k t z have k3: "TARGET \<in> set (columns example_clean)" by blast
  from k i z have k4: "''SK_ID_CURR'' \<in> set (columns example_clean)" by blast
  from k t have k5: "TARGET \<notin> set (cat_cols example_raw)" by blast
  from k i have k6: "''SK_ID_CURR'' \<notin> set (num_cols example_raw)" by blast
  from r k1 x k2 t i k3 k4 k5 k6 show ?thesis by blast
qed


section \<open>The raw dataset through the pipeline\<close>

lemma update_at_old: "b \<noteq> w \<Longrightarrow> update_at w f s ! b = s ! b"
  by (simp add: update_at_def)

lemma length_update_at [simp]: "length (update_at w f s) = length s"
  by (simp add: update_at_def)

lemma update_at_same: "w < length s \<Longrightarrow> update_at w f s ! w = f (s ! w)"
  by (simp add: update_at_def)

lemma try_update_at_Inr:
  "try_update_at w f s = Inr s' \<Longrightarrow> \<exists>d. f (s ! w) = Inr d \<and> s' = s[w := d]"
  by (auto simp: try_update_at_def split: sum.splits)

text \<open>
  The store after the call and the store before it differ at most at the new object, and the
  store grows by that one object.
\<close>

lemma preprocess_application_train_frame:
  "\<exists>d. fst (preprocess_application_train lib a s) = s @ [d]"
proof -
  have u: "\<And>f t d. update_at (length s) f (s @ [d]) = s @ [f d]"
    by (simp add: update_at_def)
  have l: "\<And>d d'. (s @ [d])[length s := d'] = s @ [d']" by simp
  have n: "\<And>d. (s @ [d]) ! length s = d" by simp
  show ?thesis
    unfolding preprocess_application_train_def copy_def
    by (auto simp: Let_def u l n try_update_at_def split: sum.splits prod.splits)
qed


lemma preprocess_application_train_result:
  "preprocess_application_train lib a s
     = (case preprocess_frame lib (s ! a) of
          Inl e \<Rightarrow> (fst (preprocess_application_train lib a s), Inl e)
        | Inr (clean, art) \<Rightarrow> (s @ [clean], Inr (length s, art)))"
proof -
  have u: "\<And>f t d. update_at (length s) f (s @ [d]) = s @ [f d]"
    by (simp add: update_at_def)
  have l: "\<And>d d'. (s @ [d])[length s := d'] = s @ [d']" by simp
  have n: "\<And>d. (s @ [d]) ! length s = d" by simp
  show ?thesis
    unfolding preprocess_frame_unfold
    unfolding preprocess_application_train_def copy_def
    by (auto simp: Let_def u l n try_update_at_def split: sum.splits prod.splits)
qed


text \<open>
  C10. For every store and every reference \<open>a\<close> to a dataframe in it, whether the pipeline
  returns or raises: every dataframe object that existed before the call, the caller's raw
  dataset among them, has the content it had before; the store has grown by one object, the
  working copy. When the pipeline returns, the cleaned dataset is that new object, not the
  raw one, and its content and the artifacts are what the steps of the pipeline make of the
  raw content; the session state then holds the reference to the raw dataset, whose content
  is what it was before preprocessing.
\<close>

theorem preprocess_leaves_raw_unchanged:
  assumes "a < length s"
  shows "(\<forall>b < length s. fst (preprocess_application_train lib a s) ! b = s ! b)
       \<and> length (fst (preprocess_application_train lib a s)) = Suc (length s)
       \<and> (\<forall>clean art. snd (preprocess_application_train lib a s) = Inr (clean, art)
            \<longrightarrow> clean = length s \<and> clean \<noteq> a
              \<and> preprocess_frame lib (s ! a)
                  = Inr (fst (preprocess_application_train lib a s) ! clean, art))
       \<and> fst (home_session lib a s) ! a = s ! a
       \<and> (\<forall>ses. snd (home_session lib a s) = Inr ses
            \<longrightarrow> raw_df ses = a \<and> clean_df ses \<noteq> raw_df ses
              \<and> fst (home_session lib a s) ! raw_df ses = s ! a)"
proof -
  let ?r = "preprocess_application_train lib a s"
  obtain d where d: "fst ?r = s @ [d]"
    using preprocess_application_train_frame by blast
  have c1: "\<forall>b < length s. fst ?r ! b = s ! b" by (simp add: d nth_append)
  have c2: "length (fst ?r) = Suc (length s)" by (simp add: d)
  have c3: "clean = length s \<and> clean \<noteq> a
              \<and> preprocess_frame lib (s ! a) = Inr (fst ?r ! clean, art)"
    if h: "snd ?r = Inr (clean, art)" for clean art
  proof (cases "preprocess_frame lib (s ! a)")
    case (Inl e)
    with preprocess_application_train_result [of lib a s]
    have "?r = (fst ?r, Inl e)" by simp
    then have "snd ?r = Inl e" by (metis snd_conv)
    with h show ?thesis by simp
  next
    case (Inr p)
    obtain cl ar where p: "p = (cl, ar)" by (cases p)
    with Inr preprocess_application_train_result [of lib a s]
    have "?r = (s @ [cl], Inr (length s, ar))" by simp
    with h Inr p assms show ?thesis by auto
  qed
  have hs: "fst (home_session lib a s) = fst ?r"
    by (simp add: home_session_def split: prod.splits sum.splits)
  have c4: "fst (home_session lib a s) ! a = s ! a" using c1 assms by (simp add: hs)
  have c5: "raw_df ses = a \<and> clean_df ses \<noteq> raw_df ses
              \<and> fst (home_session lib a s) ! raw_df ses = s ! a"
    if h: "snd (home_session lib a s) = Inr ses" for ses
  proof -
    from h obtain clean art where
      r: "snd ?r = Inr (clean, art)"
         "ses = \<lparr>raw_df = a, clean_df = clean, session_artifacts = art\<rparr>"
      by (auto simp: home_session_def split: prod.splits sum.splits)
    from c3 [OF r(1)] r(2) c4 show ?thesis by simp
  qed
  from c1 c2 c3 c4 c5 show ?thesis by blast
qed

theorem preprocess_leaves_raw_unchanged_witness:
  "(0::nat) < length [example_raw]
   \<and> preprocess_application_train example_lib 0 [example_raw]
       = ([example_raw, example_clean], Inr (1, example_artifacts))
   \<and> fst (preprocess_application_train example_lib 0 [example_raw]) ! 0 = example_raw
   \<and> fst (home_session example_lib 0 [example_raw]) ! 0 = example_raw"
proof -
  have l: "(0::nat) < length [example_raw]" by simp
  have e: "preprocess_application_train example_lib 0 [example_raw]
       = ([example_raw, example_clean], Inr (1, example_artifacts))"
    using preprocess_application_train_result [of example_lib 0 "[example_raw]"]
          example_raw_preprocessed
    by simp
  note t = preprocess_leaves_raw_unchanged [OF l, of example_lib]
  from t have t1: "fst (preprocess_application_train example_lib 0 [example_raw]) ! 0
                     = [example_raw] ! 0"
    by simp
  from t have t2: "fst (home_session example_lib 0 [example_raw]) ! 0 = [example_raw] ! 0"
    by blast
  from l e t1 t2 show ?thesis by simp
qed


end
